theory Spec2Isabelle
  imports Complex_Main "HOL-Library.AList" "HOL-Library.Multiset" "HOL-Library.Word"
begin

unbundle bit_operations_syntax

section \<open>The mDNS scanner of matter.js (class MdnsScanner)\<close>

text \<open>
  A shallow embedding of \<^verbatim>\<open>MdnsScanner\<close>. Private members keep their names without the
  leading \<^verbatim>\<open>#\<close>. The scanner object is a record that every method takes and returns;
  \<^verbatim>\<open>Time.nowMs()\<close> is the argument \<open>now\<close>. A JavaScript \<^verbatim>\<open>Map\<close> is an association
  list in insertion order: \<^verbatim>\<open>set\<close> is \<open>AList.update\<close> (replace in place, or append),
  \<^verbatim>\<open>delete\<close> is \<open>AList.delete\<close>, \<^verbatim>\<open>get\<close> is \<open>map_of\<close>. Numbers are integers
  (milliseconds, seconds of a DNS TTL) or rationals (the announce interval 1.5);
  \<open>None\<close> stands for \<^verbatim>\<open>undefined\<close> and, as the result of an addition, for \<^verbatim>\<open>NaN\<close>.
\<close>

subsection \<open>Strings and numbers of the host language\<close>

text \<open>\<^verbatim>\<open>s.startsWith(p)\<close> and \<^verbatim>\<open>s.endsWith(p)\<close>.\<close>

definition startsWith :: "string \<Rightarrow> string \<Rightarrow> bool" where
  "startsWith s p = (take (length p) s = p)"

definition endsWith :: "string \<Rightarrow> string \<Rightarrow> bool" where
  "endsWith s p = (length p \<le> length s \<and> drop (length s - length p) s = p)"

text \<open>\<^verbatim>\<open>s.split(c)\<close> for a separator of one character: never the empty array.\<close>

fun split :: "char \<Rightarrow> string \<Rightarrow> string list" where
  "split c [] = [[]]"
| "split c (x # xs) =
     (if x = c then [] # split c xs
      else (case split c xs of [] \<Rightarrow> [[x]] | w # ws \<Rightarrow> (x # w) # ws))"

text \<open>
  \<^verbatim>\<open>parseInt(s)\<close> with no radix: leading white space is skipped, a sign is read, the
  prefix \<^verbatim>\<open>0x\<close> selects radix 16, and the longest prefix of digits is the value;
  \<open>None\<close> is \<^verbatim>\<open>NaN\<close> (no digit). Strings are byte strings here, so the white
  space skipped is that of ASCII (not U+00A0 and the other Unicode spaces), and the
  value is the exact integer: the rounding of a JavaScript number above \<open>2 ^ 53\<close> and
  \<^verbatim>\<open>Infinity\<close> are left out.
\<close>

definition isWhiteSpace :: "char \<Rightarrow> bool" where
  "isWhiteSpace c = (let n = (of_char c :: nat) in (9 \<le> n \<and> n \<le> 13) \<or> n = 32)"

definition digitValue :: "char \<Rightarrow> nat" where
  "digitValue c =
     (let n = (of_char c :: nat) in
      if 48 \<le> n \<and> n \<le> 57 then n - 48
      else if 97 \<le> n \<and> n \<le> 122 then n - 87
      else if 65 \<le> n \<and> n \<le> 90 then n - 55
      else 36)"

definition digitsValue :: "nat \<Rightarrow> string \<Rightarrow> nat" where
  "digitsValue radix ds = foldl (\<lambda>acc c. acc * radix + digitValue c) 0 ds"

definition parseDigits :: "nat \<Rightarrow> string \<Rightarrow> int option" where
  "parseDigits radix s =
     (let ds = takeWhile (\<lambda>c. digitValue c < radix) s in
      if ds = [] then None else Some (int (digitsValue radix ds)))"

definition parseUnsigned :: "string \<Rightarrow> int option" where
  "parseUnsigned s =
     (if startsWith s ''0x'' \<or> startsWith s ''0X'' then parseDigits 16 (drop 2 s)
      else parseDigits 10 s)"

definition parseInt :: "string \<Rightarrow> int option" where
  "parseInt s =
     (case dropWhile isWhiteSpace s of
        [] \<Rightarrow> None
      | c # cs \<Rightarrow>
          if c = CHR ''-'' then map_option uminus (parseUnsigned cs)
          else if c = CHR ''+'' then parseUnsigned cs
          else parseUnsigned (c # cs))"

text \<open>
  The values a property of a cached object holds: a number, \<^verbatim>\<open>NaN\<close> or a string. An
  object is the list of its properties in insertion order; a property that is missing
  reads as \<^verbatim>\<open>undefined\<close> (\<open>None\<close>).
\<close>

datatype JsVal = Num int | NaN | Str string

type_synonym JsObject = "(string \<times> JsVal) list"

definition getProp :: "JsObject \<Rightarrow> string \<Rightarrow> JsVal option" where
  "getProp obj key = map_of obj key"

text \<open>
  Sums and comparisons of numbers that may be \<^verbatim>\<open>undefined\<close>: a sum with
  \<^verbatim>\<open>undefined\<close> is \<^verbatim>\<open>NaN\<close>, and every comparison with \<^verbatim>\<open>NaN\<close> is false.
\<close>

fun jsAdd :: "int option \<Rightarrow> int option \<Rightarrow> int option" where
  "jsAdd (Some a) (Some b) = Some (a + b)"
| "jsAdd _ _ = None"

fun jsLess :: "int \<Rightarrow> int option \<Rightarrow> bool" where
  "jsLess a (Some b) = (a < b)"
| "jsLess a None = False"

fun jsGreaterEq :: "int \<Rightarrow> int option \<Rightarrow> bool" where
  "jsGreaterEq a (Some b) = (a \<ge> b)"
| "jsGreaterEq a None = False"

subsection \<open>DNS data (the codec's types)\<close>

datatype DnsRecordType = A | AAAA | PTR | SRV | TXT | ANY

datatype DnsRecordClass = IN

datatype DnsMessageType = Query | TruncatedQuery | Response | TruncatedResponse

record DnsQuery =
  name :: string
  recordType :: DnsRecordType
  recordClass :: DnsRecordClass

text \<open>
  The value of a record as the codec decodes it: an address literal for A and AAAA,
  \<^verbatim>\<open>{target, port}\<close> for SRV, an array of strings for TXT.
\<close>

datatype RecordValue =
    IpValue string
  | SrvValue string int
  | TxtValue "string list"
  | OtherValue

record DnsRecord = DnsQuery +
  ttl :: int
  rvalue :: RecordValue

type_synonym Bytes = "8 word list"

record DnsMessage =
  messageType :: DnsMessageType
  transactionId :: nat
  msgQueries :: "DnsQuery list"
  msgAnswers :: "Bytes list"
  authorities :: "Bytes list"
  additionalRecords :: "Bytes list"

subsection \<open>Cached devices\<close>

record ServerAddressIp =
  ip :: string
  port :: int
  addrType :: string

text \<open>
  \<^verbatim>\<open>MatterServerRecordWithExpire = ServerAddressIp & Lifespan\<close>. An entry is created
  by the cast \<^verbatim>\<open>{ ip, port, type: "udp" } as MatterServerRecordWithExpire\<close>, so both
  fields of its lifespan are \<^verbatim>\<open>undefined\<close> until a handler assigns them.
\<close>

record MatterServerRecordWithExpire = ServerAddressIp +
  discoveredAt :: "int option"
  addrTtl :: "int option"

type_synonym AddressMap = "(string \<times> MatterServerRecordWithExpire) list"

record OperationalDeviceRecordWithExpire =
  deviceIdentifier :: string
  addresses :: AddressMap
  devDiscoveredAt :: int
  devTtl :: int
  discoveryData :: JsObject

record OperationalDevice =
  opDeviceIdentifier :: string
  opAddresses :: "ServerAddressIp list"
  opDiscoveredAt :: int
  opTtl :: int
  opDiscoveryData :: JsObject

text \<open>
  A commissionable record is the object \<^verbatim>\<open>{ addresses, expires, ...txt }\<close> plus the
  properties the TXT handler assigns (\<^verbatim>\<open>instanceId\<close>, \<^verbatim>\<open>deviceIdentifier\<close>,
  \<^verbatim>\<open>SD\<close>, \<^verbatim>\<open>V\<close>, \<^verbatim>\<open>P\<close>): its address map, and every other property in
  \<open>cprops\<close>.
\<close>

record CommissionableDeviceRecordWithExpire =
  caddresses :: AddressMap
  cprops :: JsObject

record CommissionableDevice =
  cdAddresses :: "ServerAddressIp list"
  cdProps :: JsObject

subsection \<open>The address sorter\<close>

text \<open>
  The comparator handed to \<^verbatim>\<open>entries.sort\<close>. \<^verbatim>\<open>isIPv6\<close> comes from the general
  utilities and is a parameter.
\<close>

definition compareEntries ::
  "(string \<Rightarrow> bool) \<Rightarrow> ('a ServerAddressIp_scheme) \<Rightarrow> ('a ServerAddressIp_scheme) \<Rightarrow> int" where
  "compareEntries isIPv6 a b =
     (let aIsIPv6 = isIPv6 (ip a); bIsIPv6 = isIPv6 (ip b) in
      if aIsIPv6 \<and> \<not> bIsIPv6 then -1
      else if \<not> aIsIPv6 \<and> bIsIPv6 then 1
      else if aIsIPv6 \<and> bIsIPv6 then
        (if startsWith (ip a) ''fd'' \<and> \<not> startsWith (ip b) ''fd'' then -1
         else if \<not> startsWith (ip a) ''fd'' \<and> startsWith (ip b) ''fd'' then 1
         else if startsWith (ip a) ''fe80:'' \<and> \<not> startsWith (ip b) ''fe80:'' then -1
         else if \<not> startsWith (ip a) ''fe80:'' \<and> startsWith (ip b) ''fe80:'' then 1
         else 0)
      else 0)"

text \<open>
  \<^verbatim>\<open>Array.prototype.sort\<close> is a stable sort: an element moves in front of another
  only when the comparator puts it strictly before. Insertion from the right end is
  such a sort.
\<close>

fun insertBy :: "('a \<Rightarrow> 'a \<Rightarrow> int) \<Rightarrow> 'a \<Rightarrow> 'a list \<Rightarrow> 'a list" where
  "insertBy cmp x [] = [x]"
| "insertBy cmp x (y # ys) = (if cmp x y \<le> 0 then x # y # ys else y # insertBy cmp x ys)"

definition sortBy :: "('a \<Rightarrow> 'a \<Rightarrow> int) \<Rightarrow> 'a list \<Rightarrow> 'a list" where
  "sortBy cmp xs = foldr (insertBy cmp) xs []"

definition sortServerEntries ::
  "(string \<Rightarrow> bool) \<Rightarrow> ('a ServerAddressIp_scheme) list \<Rightarrow> ('a ServerAddressIp_scheme) list" where
  "sortServerEntries isIPv6 entries = sortBy (compareEntries isIPv6) entries"

text \<open>
  The rank of the specification, in its words: 0 for an IPv6 unique-local address
  (prefix \<^verbatim>\<open>fd\<close>), 1 for an IPv6 link-local address (prefix \<^verbatim>\<open>fe80:\<close>), 2 for any
  other IPv6 address, 3 for an IPv4 address.
\<close>

definition specRank :: "(string \<Rightarrow> bool) \<Rightarrow> ('a ServerAddressIp_scheme) \<Rightarrow> nat" where
  "specRank isIPv6 e =
     (if isIPv6 (ip e) then
        (if startsWith (ip e) ''fd'' then 0
         else if startsWith (ip e) ''fe80:'' then 1
         else 2)
      else 3)"

subsection \<open>The TXT parser\<close>

definition intKeys :: "string list" where
  "intKeys = [''SII'', ''SAI'', ''SAT'', ''T'', ''D'', ''CM'', ''DT'', ''PH'', ''ICD'']"

definition strKeys :: "string list" where
  "strKeys = [''VP'', ''DN'', ''RI'', ''PI'']"

text \<open>\<^verbatim>\<open>obj[key] = v\<close>.\<close>

definition setProp :: "string \<Rightarrow> JsVal \<Rightarrow> JsObject \<Rightarrow> JsObject" where
  "setProp key v obj = AList.update key v obj"

text \<open>
  One turn of the loop over the items of a TXT value:
  \<^verbatim>\<open>const [key, value] = item.split("=")\<close>, an item without \<^verbatim>\<open>=\<close> is skipped, an
  integer key whose value does not parse is skipped.
\<close>

definition parseTxtItem :: "JsObject \<Rightarrow> string \<Rightarrow> JsObject" where
  "parseTxtItem result item =
     (case split (CHR ''='') item of
        key # val # rest \<Rightarrow>
          if key \<in> set intKeys then
            (case parseInt val of
               None \<Rightarrow> result
             | Some intValue \<Rightarrow> setProp key (Num intValue) result)
          else if key \<in> set strKeys then setProp key (Str val) result
          else result
      | _ \<Rightarrow> result)"

text \<open>The loop, which runs only when the value is an array.\<close>

definition parseTxtItems :: "'a DnsRecord_scheme \<Rightarrow> JsObject" where
  "parseTxtItems rec = (case rvalue rec of TxtValue v \<Rightarrow> foldl parseTxtItem [] v | _ \<Rightarrow> [])"

definition parseTxtRecord :: "'a DnsRecord_scheme \<Rightarrow> JsObject" where
  "parseTxtRecord rec =
     (let result = parseTxtItems rec;
          result = (if getProp result ''T'' = None then setProp ''T'' (Num 0) result
                    else if getProp result ''T'' = Some (Num 1) then setProp ''T'' (Num 0) result
                    else result);
          result = (if getProp result ''ICD'' = None then setProp ''ICD'' (Num 0) result
                    else result)
      in result)"

text \<open>The object spread \<^verbatim>\<open>{ ...target, ...source }\<close>.\<close>

definition spread :: "JsObject \<Rightarrow> JsObject \<Rightarrow> JsObject" where
  "spread target source = foldl (\<lambda>obj kv. setProp (fst kv) (snd kv) obj) target source"

definition parseCommissionableTxtRecord ::
  "int \<Rightarrow> 'a DnsRecord_scheme \<Rightarrow> CommissionableDeviceRecordWithExpire option" where
  "parseCommissionableTxtRecord now rec =
     (case rvalue rec of
        TxtValue v \<Rightarrow>
          (let result = \<lparr>caddresses = [],
                         cprops = spread [(''expires'', Num (now + ttl rec * 1000))]
                                    (parseTxtRecord rec)\<rparr> in
           if getProp (cprops result) ''D'' = None \<or> getProp (cprops result) ''CM'' = None
           then None
           else Some result)
      | _ \<Rightarrow> None)"

subsection \<open>The TXT records of a commissionable response\<close>

definition extractInstanceId :: "string \<Rightarrow> string" where
  "extractInstanceId instanceName =
     (if CHR ''.'' \<in> set instanceName
      then takeWhile (\<lambda>c. c \<noteq> CHR ''.'') instanceName
      else instanceName)"

text \<open>
  \<^verbatim>\<open>(D >> 8) & 0x0f\<close>: the operands of \<^verbatim>\<open>>>\<close> and \<^verbatim>\<open>&\<close> are converted to 32-bit
  two's complement integers, the shift is arithmetic.
\<close>

definition shortDiscriminatorOf :: "int \<Rightarrow> int" where
  "shortDiscriminatorOf d = sint (signed_drop_bit 8 (word_of_int d :: 32 word) AND 0x0f)"

definition numberOrNaN :: "int option \<Rightarrow> JsVal" where
  "numberOrNaN r = (case r of None \<Rightarrow> NaN | Some n \<Rightarrow> Num n)"

text \<open>
  What the TXT loop of \<^verbatim>\<open>handleCommissionableRecords\<close> assigns to a parsed record
  before it stores it. A parsed record holds a number under \<^verbatim>\<open>D\<close> and never a
  property \<^verbatim>\<open>SD\<close>, \<^verbatim>\<open>V\<close> or \<^verbatim>\<open>P\<close>, so an assignment of \<^verbatim>\<open>undefined\<close> to
  \<^verbatim>\<open>P\<close> leaves the object as it reads.
\<close>

definition completeParsedRecord :: "string \<Rightarrow> JsObject \<Rightarrow> JsObject" where
  "completeParsedRecord nm parsedRecord =
     (let instanceId = extractInstanceId nm;
          p = setProp ''instanceId'' (Str instanceId) parsedRecord;
          p = setProp ''deviceIdentifier'' (Str instanceId) p;
          p = (case getProp p ''D'' of
                 Some (Num d) \<Rightarrow>
                   if getProp p ''SD'' = None then setProp ''SD'' (Num (shortDiscriminatorOf d)) p
                   else p
               | _ \<Rightarrow> p);
          p = (case getProp p ''VP'' of
                 Some (Str vp) \<Rightarrow>
                   (case split (CHR ''+'') vp of
                      [] \<Rightarrow> p
                    | v0 # rest \<Rightarrow>
                        (let p = setProp ''V'' (numberOrNaN (parseInt v0)) p in
                         case rest of
                           [] \<Rightarrow> p
                         | v1 # rest' \<Rightarrow> setProp ''P'' (numberOrNaN (parseInt v1)) p))
               | _ \<Rightarrow> p)
      in p)"

type_synonym CommissionableCache = "(string \<times> CommissionableDeviceRecordWithExpire) list"

text \<open>
  One turn of the loop over \<^verbatim>\<open>txtRecords\<close>: the cache and the set
  \<^verbatim>\<open>queryMissingDataForInstances\<close> before and after.
\<close>

definition handleCommissionableTxtRecord ::
  "int \<Rightarrow> CommissionableCache \<times> string list \<Rightarrow> 'a DnsRecord_scheme
     \<Rightarrow> CommissionableCache \<times> string list" where
  "handleCommissionableTxtRecord now st rec =
     (let cache = fst st; missing = snd st in
      if ttl rec = 0 then
        (if map_of cache (name rec) \<noteq> None then (AList.delete (name rec) cache, missing)
         else (cache, missing))
      else
        (case parseCommissionableTxtRecord now rec of
           None \<Rightarrow> (cache, missing)
         | Some parsed \<Rightarrow>
             (let parsedRecord = parsed\<lparr>cprops := completeParsedRecord (name rec) (cprops parsed)\<rparr> in
              case map_of cache (name rec) of
                None \<Rightarrow> (AList.update (name rec) parsedRecord cache, List.insert (name rec) missing)
              | Some storedRecord \<Rightarrow>
                  (AList.update (name rec) (parsedRecord\<lparr>caddresses := caddresses storedRecord\<rparr>) cache,
                   missing))))"

text \<open>
  Modelled from the spec: the service names are constants of \<^verbatim>\<open>MdnsConsts.js\<close>, which
  is not among the sources; the specification gives \<^verbatim>\<open>_matter._tcp.local\<close> for
  operational and \<^verbatim>\<open>_matterc._udp.local\<close> for commissionable services.
\<close>

definition MATTER_SERVICE_QNAME :: string where
  "MATTER_SERVICE_QNAME = ''_matter._tcp.local''"

definition MATTER_COMMISSION_SERVICE_QNAME :: string where
  "MATTER_COMMISSION_SERVICE_QNAME = ''_matterc._udp.local''"

text \<open>
  The first phase of \<^verbatim>\<open>handleCommissionableRecords\<close>: the records whose name ends
  with the commission service name are taken from the answers (from the former answers
  when the answers hold none), and their TXT records are processed in order. The SRV
  phase and the follow-up queries come after it and assign none of the properties
  parsed here.
\<close>

definition commissionableRecordsOf ::
  "('a DnsRecord_scheme) list \<Rightarrow> ('a DnsRecord_scheme) list \<Rightarrow> ('a DnsRecord_scheme) list" where
  "commissionableRecordsOf as formerAnswers =
     (let commissionableRecords =
            filter (\<lambda>r. endsWith (name r) MATTER_COMMISSION_SERVICE_QNAME) as in
      if length commissionableRecords = 0
      then filter (\<lambda>r. endsWith (name r) MATTER_COMMISSION_SERVICE_QNAME) formerAnswers
      else commissionableRecords)"

definition handleCommissionableTxtRecords ::
  "int \<Rightarrow> CommissionableCache \<Rightarrow> ('a DnsRecord_scheme) list \<Rightarrow> ('a DnsRecord_scheme) list
     \<Rightarrow> CommissionableCache \<times> string list" where
  "handleCommissionableTxtRecords now cache as formerAnswers =
     (let commissionableRecords = commissionableRecordsOf as formerAnswers;
          txtRecords = filter (\<lambda>r. recordType r = TXT) commissionableRecords
      in foldl (handleCommissionableTxtRecord now) (cache, []) txtRecords)"

subsection \<open>The scanner object\<close>

record ActiveQuery =
  queries :: "DnsQuery list"
  answers :: "DnsRecord list"

text \<open>
  A waiter: \<open>timer\<close> is the delay in milliseconds of its running timeout timer
  (\<open>None\<close>: it has none). The call of its \<^verbatim>\<open>resolver\<close> is recorded in the field
  \<open>resolved\<close> of the scanner.
\<close>

record Waiter =
  timer :: "rat option"
  resolveOnUpdatedRecords :: bool

text \<open>
  \<open>queryTimer\<close> is the delay in milliseconds of the running query timer, whose
  callback is \<^verbatim>\<open>sendQueries\<close> (\<open>None\<close>: no timer runs). \<open>sent\<close> lists the messages
  handed to \<^verbatim>\<open>DnsCodec.encode\<close> and \<^verbatim>\<open>multicastServer.send\<close>, oldest first.
\<close>

record MdnsScanner =
  activeAnnounceQueries :: "(string \<times> ActiveQuery) list"
  queryTimer :: "rat option"
  nextAnnounceIntervalSeconds :: rat
  operationalDeviceRecords :: "(string \<times> OperationalDeviceRecordWithExpire) list"
  commissionableDeviceRecords :: CommissionableCache
  recordWaiters :: "(string \<times> Waiter) list"
  periodicTimerRunning :: bool
  closing :: bool
  enableIpv4 :: bool
  serverClosed :: bool
  sent :: "DnsMessage list"
  resolved :: "string list"

definition START_ANNOUNCE_INTERVAL_SECONDS :: rat where
  "START_ANNOUNCE_INTERVAL_SECONDS = 3 / 2"

text \<open>
  Modelled from the spec: \<^verbatim>\<open>MAX_MDNS_MESSAGE_SIZE\<close> is imported from the general
  utilities; the specification gives the maximum MDNS message size as 1500 bytes.
\<close>

definition MAX_MDNS_MESSAGE_SIZE :: nat where
  "MAX_MDNS_MESSAGE_SIZE = 1500"

text \<open>The scanner as the constructor leaves it.\<close>

definition newScanner :: "bool \<Rightarrow> MdnsScanner" where
  "newScanner ipv4 =
     \<lparr>activeAnnounceQueries = [], queryTimer = None,
      nextAnnounceIntervalSeconds = START_ANNOUNCE_INTERVAL_SECONDS,
      operationalDeviceRecords = [], commissionableDeviceRecords = [], recordWaiters = [],
      periodicTimerRunning = True, closing = False, enableIpv4 = ipv4, serverClosed = False,
      sent = [], resolved = []\<rparr>"

subsection \<open>The query scheduler\<close>

text \<open>
  The \<^verbatim>\<open>while (true)\<close> loop of \<^verbatim>\<open>sendQueries\<close> over \<^verbatim>\<open>answersToSend\<close>: the message
  under construction, the running size and the messages sent so far. \<open>emptyLength\<close>
  is \<^verbatim>\<open>emptyDnsMessage.length\<close>. The warning is only logged.
\<close>

fun packAnswers ::
  "(DnsRecord \<Rightarrow> Bytes) \<Rightarrow> nat \<Rightarrow> DnsRecord list \<Rightarrow> DnsMessage \<Rightarrow> nat \<Rightarrow> DnsMessage list
     \<Rightarrow> DnsMessage \<times> DnsMessage list" where
  "packAnswers encodeRecord emptyLength [] dnsMessageDataToSend dnsMessageSize out =
     (dnsMessageDataToSend, out)"
| "packAnswers encodeRecord emptyLength (nextAnswer # answersToSend) dnsMessageDataToSend
       dnsMessageSize out =
     (let nextAnswerEncoded = encodeRecord nextAnswer;
          dnsMessageSize' = dnsMessageSize + length nextAnswerEncoded
      in
      if dnsMessageSize' > MAX_MDNS_MESSAGE_SIZE then
        packAnswers encodeRecord emptyLength answersToSend
          (dnsMessageDataToSend\<lparr>msgQueries := [], msgAnswers := [nextAnswerEncoded]\<rparr>)
          (emptyLength + length nextAnswerEncoded)
          (out @ [dnsMessageDataToSend])
      else
        packAnswers encodeRecord emptyLength answersToSend
          (dnsMessageDataToSend\<lparr>msgAnswers := msgAnswers dnsMessageDataToSend @ [nextAnswerEncoded]\<rparr>)
          dnsMessageSize' out)"

text \<open>
  The messages of one broadcast, in the order they are sent. \<^verbatim>\<open>DnsCodec.encode\<close> and
  \<^verbatim>\<open>DnsCodec.encodeRecord\<close> are parameters; the datagram of a message \<open>m\<close> is
  \<open>encode m\<close>.
\<close>

definition broadcastMessages ::
  "(DnsMessage \<Rightarrow> Bytes) \<Rightarrow> (DnsRecord \<Rightarrow> Bytes) \<Rightarrow> DnsQuery list \<Rightarrow> DnsRecord list
     \<Rightarrow> DnsMessage list" where
  "broadcastMessages encode encodeRecord qs answersToSend =
     (let dnsMessageDataToSend =
            \<lparr>messageType = TruncatedQuery, transactionId = 0, msgQueries = qs,
             msgAnswers = [], authorities = [], additionalRecords = []\<rparr>;
          emptyDnsMessage = encode dnsMessageDataToSend;
          packed = packAnswers encodeRecord (length emptyDnsMessage) answersToSend
                     dnsMessageDataToSend (length emptyDnsMessage) []
      in snd packed @ [(fst packed)\<lparr>messageType := Query\<rparr>])"

definition sendQueries ::
  "(DnsMessage \<Rightarrow> Bytes) \<Rightarrow> (DnsRecord \<Rightarrow> Bytes) \<Rightarrow> MdnsScanner \<Rightarrow> MdnsScanner" where
  "sendQueries encode encodeRecord s =
     (let allQueries = map snd (activeAnnounceQueries s);
          qs = concat (map queries allQueries);
          as = concat (map answers allQueries);
          delay = nextAnnounceIntervalSeconds s * 1000;
          nextAnnounceInterval = nextAnnounceIntervalSeconds s * 2
      in s\<lparr>queryTimer := Some delay,
            nextAnnounceIntervalSeconds := min nextAnnounceInterval (60 * 60),
            sent := sent s @ broadcastMessages encode encodeRecord qs as\<rparr>)"

definition sameQuery :: "DnsQuery \<Rightarrow> DnsQuery \<Rightarrow> bool" where
  "sameQuery existingQuery query =
     (name existingQuery = name query \<and> recordType existingQuery = recordType query
        \<and> recordClass existingQuery = recordClass query)"

definition installQuery ::
  "MdnsScanner \<Rightarrow> string \<Rightarrow> DnsQuery list \<Rightarrow> DnsRecord list \<Rightarrow> MdnsScanner" where
  "installQuery s queryId qs as =
     s\<lparr>activeAnnounceQueries :=
          AList.update queryId \<lparr>queries = qs, answers = as\<rparr> (activeAnnounceQueries s),
       nextAnnounceIntervalSeconds := START_ANNOUNCE_INTERVAL_SECONDS,
       queryTimer := Some 0\<rparr>"

definition setQueryRecords ::
  "MdnsScanner \<Rightarrow> string \<Rightarrow> DnsQuery list \<Rightarrow> DnsRecord list \<Rightarrow> MdnsScanner" where
  "setQueryRecords s queryId qs as =
     (case map_of (activeAnnounceQueries s) queryId of
        Some activeExistingQuery \<Rightarrow>
          (let existingQueries = queries activeExistingQuery;
               newQueries = filter (\<lambda>query. \<not> list_ex (\<lambda>existingQuery. sameQuery existingQuery query)
                                                 existingQueries) qs
           in if length newQueries = 0 then s
              else installQuery s queryId (newQueries @ existingQueries)
                     (answers activeExistingQuery @ as))
      | None \<Rightarrow> installQuery s queryId qs as)"

definition getActiveQueryEarlierAnswers :: "MdnsScanner \<Rightarrow> DnsRecord list" where
  "getActiveQueryEarlierAnswers s = concat (map (\<lambda>kv. answers (snd kv)) (activeAnnounceQueries s))"

definition removeQuery :: "MdnsScanner \<Rightarrow> string \<Rightarrow> MdnsScanner" where
  "removeQuery s queryId =
     (let s' = s\<lparr>activeAnnounceQueries := AList.delete queryId (activeAnnounceQueries s)\<rparr> in
      if length (activeAnnounceQueries s') = 0
      then s'\<lparr>queryTimer := None, nextAnnounceIntervalSeconds := START_ANNOUNCE_INTERVAL_SECONDS\<rparr>
      else s')"

subsection \<open>The waiter registry\<close>

definition registerWaiterPromise ::
  "MdnsScanner \<Rightarrow> string \<Rightarrow> rat option \<Rightarrow> bool \<Rightarrow> MdnsScanner" where
  "registerWaiterPromise s queryId timeoutSeconds resolveOnUpdated =
     (let tm = (case timeoutSeconds of
                  Some seconds \<Rightarrow> Some (seconds * 1000)
                | None \<Rightarrow> None)
      in s\<lparr>recordWaiters :=
             AList.update queryId \<lparr>timer = tm, resolveOnUpdatedRecords = resolveOnUpdated\<rparr>
               (recordWaiters s)\<rparr>)"

definition finishWaiter :: "MdnsScanner \<Rightarrow> string \<Rightarrow> bool \<Rightarrow> bool \<Rightarrow> MdnsScanner" where
  "finishWaiter s queryId resolvePromise isUpdatedRecord =
     (case map_of (recordWaiters s) queryId of
        None \<Rightarrow> s
      | Some waiter \<Rightarrow>
          if isUpdatedRecord \<and> \<not> resolveOnUpdatedRecords waiter then s
          else
            (let s' = (if resolvePromise then s\<lparr>resolved := resolved s @ [queryId]\<rparr> else s)
             in s'\<lparr>recordWaiters := AList.delete queryId (recordWaiters s')\<rparr>))"

definition hasWaiter :: "MdnsScanner \<Rightarrow> string \<Rightarrow> bool" where
  "hasWaiter s queryId = (map_of (recordWaiters s) queryId \<noteq> None)"

text \<open>
  \<^verbatim>\<open>close\<close>: every waiter is finished, and resolved when it has a timer.
\<close>

definition close :: "MdnsScanner \<Rightarrow> MdnsScanner" where
  "close s =
     (let s1 = s\<lparr>closing := True, periodicTimerRunning := False, queryTimer := None,
                  serverClosed := True\<rparr>
      in foldl (\<lambda>st queryId.
                  finishWaiter st queryId
                    (case map_of (recordWaiters st) queryId of
                       Some w \<Rightarrow> timer w \<noteq> None
                     | None \<Rightarrow> False)
                    False)
           s1 (map fst (recordWaiters s1)))"

subsection \<open>The record cache: operational SRV records and expiry\<close>

text \<open>
  \<^verbatim>\<open>handleIpRecords\<close>: the A (when IPv4 is enabled) and AAAA records of the target, as
  pairs of address and TTL. The codec gives every such record an address literal.
\<close>

definition handleIpRecords ::
  "MdnsScanner \<Rightarrow> DnsRecord list \<Rightarrow> string \<Rightarrow> string \<Rightarrow> (string \<times> int) list" where
  "handleIpRecords s as target netInterface =
     (let ipRecords =
            filter (\<lambda>r. ((recordType r = A \<and> enableIpv4 s) \<or> recordType r = AAAA) \<and> name r = target) as
      in List.map_filter
           (\<lambda>r. case rvalue r of
                   IpValue v \<Rightarrow>
                     Some (if startsWith v ''fe80::'' then v @ ''%'' @ netInterface else v, ttl r)
                 | _ \<Rightarrow> None)
           ipRecords)"

text \<open>
  The loop \<^verbatim>\<open>for (const { value: ip, ttl } of ips)\<close> of
  \<^verbatim>\<open>handleOperationalSrvRecord\<close>. Its only assignment to an entry is
  \<^verbatim>\<open>matterServer.discoveredAt = Time.nowMs() + ttl * 1000\<close>.
\<close>

fun refreshOperationalAddresses ::
  "int \<Rightarrow> int \<Rightarrow> (string \<times> int) list \<Rightarrow> AddressMap \<Rightarrow> AddressMap" where
  "refreshOperationalAddresses now prt [] addrs = addrs"
| "refreshOperationalAddresses now prt ((ipv, t) # ips) addrs =
     (if t = 0 then refreshOperationalAddresses now prt ips (AList.delete ipv addrs)
      else
        (let matterServer =
               (case map_of addrs ipv of
                  Some existing \<Rightarrow> existing
                | None \<Rightarrow> \<lparr>ip = ipv, port = prt, addrType = ''udp'',
                            discoveredAt = None, addrTtl = None\<rparr>);
             matterServer = matterServer\<lparr>discoveredAt := Some (now + t * 1000)\<rparr>
         in refreshOperationalAddresses now prt ips (AList.update (ip matterServer) matterServer addrs)))"

definition handleOperationalSrvRecord ::
  "int \<Rightarrow> MdnsScanner \<Rightarrow> DnsRecord \<Rightarrow> DnsRecord list \<Rightarrow> DnsRecord list \<Rightarrow> string \<Rightarrow> MdnsScanner" where
  "handleOperationalSrvRecord now s rec as formerAnswers netInterface =
     (case rvalue rec of
        SrvValue target prt \<Rightarrow>
          (let matterName = name rec in
           if ttl rec = 0 then
             (if map_of (operationalDeviceRecords s) matterName \<noteq> None
              then s\<lparr>operationalDeviceRecords := AList.delete matterName (operationalDeviceRecords s)\<rparr>
              else s)
           else
             (let ips = handleIpRecords s (as @ formerAnswers) target netInterface;
                  deviceExisted = (map_of (operationalDeviceRecords s) matterName \<noteq> None);
                  device = (case map_of (operationalDeviceRecords s) matterName of
                              Some d \<Rightarrow> d
                            | None \<Rightarrow> \<lparr>deviceIdentifier = matterName, addresses = [],
                                        devDiscoveredAt = now, devTtl = ttl rec * 1000,
                                        discoveryData = []\<rparr>);
                  addrs = (if length ips > 0
                           then refreshOperationalAddresses now prt ips (addresses device)
                           else addresses device);
                  s1 = (if length ips > 0
                        then s\<lparr>operationalDeviceRecords :=
                                 AList.update matterName (device\<lparr>addresses := addrs\<rparr>)
                                   (operationalDeviceRecords s)\<rparr>
                        else s)
              in if length addrs = 0 \<and> hasWaiter s1 matterName then
                   setQueryRecords s1 matterName
                     (\<lparr>name = target, recordType = AAAA, recordClass = IN\<rparr> #
                        (if enableIpv4 s1 then [\<lparr>name = target, recordType = A, recordClass = IN\<rparr>]
                         else []))
                     as
                 else if length addrs > 0 then finishWaiter s1 matterName True deviceExisted
                 else s1))
      | _ \<Rightarrow> s)"

text \<open>
  \<^verbatim>\<open>handleOperationalTxtRecord\<close>: the parsed TXT data are spread over the cached
  device, or over a new device without addresses.
\<close>

definition handleOperationalTxtRecord :: "int \<Rightarrow> MdnsScanner \<Rightarrow> DnsRecord \<Rightarrow> MdnsScanner" where
  "handleOperationalTxtRecord now s rec =
     (let matterName = name rec in
      if ttl rec = 0 then
        (if map_of (operationalDeviceRecords s) matterName \<noteq> None
         then s\<lparr>operationalDeviceRecords := AList.delete matterName (operationalDeviceRecords s)\<rparr>
         else s)
      else
        (case rvalue rec of
           TxtValue v \<Rightarrow>
             (let txtData = parseTxtRecord rec;
                  device =
                    (case map_of (operationalDeviceRecords s) matterName of
                       Some d \<Rightarrow> d\<lparr>devDiscoveredAt := now, devTtl := ttl rec * 1000,
                                     discoveryData := spread (discoveryData d) txtData\<rparr>
                     | None \<Rightarrow> \<lparr>deviceIdentifier = matterName, addresses = [],
                                 devDiscoveredAt = now, devTtl = ttl rec * 1000,
                                 discoveryData = spread [] txtData\<rparr>)
              in s\<lparr>operationalDeviceRecords :=
                     AList.update matterName device (operationalDeviceRecords s)\<rparr>)
         | _ \<Rightarrow> s))"

text \<open>
  \<^verbatim>\<open>handleOperationalRecords\<close>: the first TXT record of the operational service among
  the answers, then the first SRV record among the answers or else among the former
  answers; the result tells whether a record was handled.
\<close>

definition handleOperationalRecords ::
  "int \<Rightarrow> MdnsScanner \<Rightarrow> DnsRecord list \<Rightarrow> DnsRecord list \<Rightarrow> string \<Rightarrow> bool \<times> MdnsScanner" where
  "handleOperationalRecords now s as formerAnswers netInterface =
     (let operationalTxtRecord =
            List.find (\<lambda>r. recordType r = TXT \<and> endsWith (name r) MATTER_SERVICE_QNAME) as;
          handledTxt = (case operationalTxtRecord of
                          Some r \<Rightarrow> (True, handleOperationalTxtRecord now s r)
                        | None \<Rightarrow> (False, s));
          operationalSrvRecord =
            (case List.find (\<lambda>r. recordType r = SRV \<and> endsWith (name r) MATTER_SERVICE_QNAME) as of
               Some r \<Rightarrow> Some r
             | None \<Rightarrow>
                 List.find (\<lambda>r. recordType r = SRV \<and> endsWith (name r) MATTER_SERVICE_QNAME)
                   formerAnswers)
      in case operationalSrvRecord of
           Some r \<Rightarrow>
             (True, handleOperationalSrvRecord now (snd handledTxt) r as formerAnswers netInterface)
         | None \<Rightarrow> handledTxt)"

text \<open>
  \<^verbatim>\<open>expire\<close>. The inner loop deletes every address for which
  \<^verbatim>\<open>now < discoveredAt + ttl\<close> does not hold; the objects of the snapshot are the
  cached ones, so the deletion shows in the cache.
\<close>

definition expireAddresses :: "int \<Rightarrow> AddressMap \<Rightarrow> AddressMap" where
  "expireAddresses now addrs =
     foldl (\<lambda>m kv. if jsLess now (jsAdd (discoveredAt (snd kv)) (addrTtl (snd kv))) then m
                    else AList.delete (fst kv) m)
       addrs addrs"

definition expireOperationalEntry ::
  "int \<Rightarrow> (string \<times> OperationalDeviceRecordWithExpire) list
     \<Rightarrow> string \<times> OperationalDeviceRecordWithExpire
     \<Rightarrow> (string \<times> OperationalDeviceRecordWithExpire) list" where
  "expireOperationalEntry now records entry =
     (let recordKey = fst entry; d = snd entry;
          expires = devDiscoveredAt d + devTtl d;
          addrs = (if now < expires then expireAddresses now (addresses d) else addresses d);
          records' = AList.update recordKey (d\<lparr>addresses := addrs\<rparr>) records
      in if now \<ge> expires \<or> length addrs = 0 then AList.delete recordKey records' else records')"

definition numberProp :: "JsObject \<Rightarrow> string \<Rightarrow> int option" where
  "numberProp obj key = (case getProp obj key of Some (Num n) \<Rightarrow> Some n | _ \<Rightarrow> None)"

definition expireCommissionableEntry ::
  "int \<Rightarrow> CommissionableCache \<Rightarrow> string \<times> CommissionableDeviceRecordWithExpire
     \<Rightarrow> CommissionableCache" where
  "expireCommissionableEntry now records entry =
     (let recordKey = fst entry; d = snd entry;
          expires = jsAdd (numberProp (cprops d) ''discoveredAt'') (numberProp (cprops d) ''ttl'');
          addrs = (if jsLess now expires then expireAddresses now (caddresses d) else caddresses d);
          records' = AList.update recordKey (d\<lparr>caddresses := addrs\<rparr>) records
      in if jsGreaterEq now expires \<or> length addrs = 0 then AList.delete recordKey records'
         else records')"

definition expire :: "int \<Rightarrow> MdnsScanner \<Rightarrow> MdnsScanner" where
  "expire now s =
     s\<lparr>operationalDeviceRecords :=
          foldl (expireOperationalEntry now) (operationalDeviceRecords s) (operationalDeviceRecords s),
       commissionableDeviceRecords :=
          foldl (expireCommissionableEntry now) (commissionableDeviceRecords s)
            (commissionableDeviceRecords s)\<rparr>"

subsection \<open>Reading the cache\<close>

definition toServerAddressIp :: "MatterServerRecordWithExpire \<Rightarrow> ServerAddressIp" where
  "toServerAddressIp a = \<lparr>ip = ip a, port = port a, addrType = ''udp''\<rparr>"

definition getOperationalDeviceRecords ::
  "(string \<Rightarrow> bool) \<Rightarrow> MdnsScanner \<Rightarrow> string \<Rightarrow> OperationalDevice option" where
  "getOperationalDeviceRecords isIPv6 s deviceMatterQname =
     (case map_of (operationalDeviceRecords s) deviceMatterQname of
        None \<Rightarrow> None
      | Some device \<Rightarrow>
          if length (addresses device) = 0 then None
          else Some \<lparr>opDeviceIdentifier = deviceIdentifier device,
                     opAddresses = map toServerAddressIp
                                     (sortServerEntries isIPv6 (map snd (addresses device))),
                     opDiscoveredAt = devDiscoveredAt device, opTtl = devTtl device,
                     opDiscoveryData = discoveryData device\<rparr>)"

text \<open>
  \<^verbatim>\<open>CommissionableDeviceIdentifiers\<close>: an object with some of these keys;
  \<^verbatim>\<open>"key" in identifier\<close> is \<open>key identifier \<noteq> None\<close>.
\<close>

record CommissionableDeviceIdentifiers =
  instanceId :: "string option"
  longDiscriminator :: "int option"
  shortDiscriminator :: "int option"
  vendorId :: "int option"
  productId :: "int option"
  deviceType :: "int option"

definition anyCommissioningDevice :: CommissionableDeviceIdentifiers where
  "anyCommissioningDevice =
     \<lparr>instanceId = None, longDiscriminator = None, shortDiscriminator = None,
      vendorId = None, productId = None, deviceType = None\<rparr>"

text \<open>
  The filter the chain of \<^verbatim>\<open>if (... in identifier)\<close> selects. \<^verbatim>\<open>x === n\<close> for a
  number \<open>n\<close> is \<open>x = Some (Num n)\<close>. In the last branch no key is left, which is
  \<^verbatim>\<open>Object.keys(identifier).length === 0\<close>.
\<close>

definition identifierFilter ::
  "CommissionableDeviceIdentifiers \<Rightarrow> CommissionableDeviceRecordWithExpire \<Rightarrow> bool" where
  "identifierFilter identifier r =
     (let p = cprops r in
      if instanceId identifier \<noteq> None then
        getProp p ''instanceId'' = map_option Str (instanceId identifier)
      else if longDiscriminator identifier \<noteq> None then
        getProp p ''D'' = map_option Num (longDiscriminator identifier)
      else if shortDiscriminator identifier \<noteq> None then
        getProp p ''SD'' = map_option Num (shortDiscriminator identifier)
      else if vendorId identifier \<noteq> None \<and> productId identifier \<noteq> None then
        (getProp p ''V'' = map_option Num (vendorId identifier)
           \<and> getProp p ''P'' = map_option Num (productId identifier))
      else if vendorId identifier \<noteq> None then
        getProp p ''V'' = map_option Num (vendorId identifier)
      else if deviceType identifier \<noteq> None then
        getProp p ''DT'' = map_option Num (deviceType identifier)
      else if productId identifier \<noteq> None then
        getProp p ''P'' = map_option Num (productId identifier)
      else (getProp p ''CM'' = Some (Num 1) \<or> getProp p ''CM'' = Some (Num 2)))"

text \<open>
  The object a found record is mapped to: \<^verbatim>\<open>{ ...record, addresses: sorted, expires:
  undefined }\<close>.
\<close>

definition toCommissionableDevice ::
  "(string \<Rightarrow> bool) \<Rightarrow> CommissionableDeviceRecordWithExpire \<Rightarrow> CommissionableDevice" where
  "toCommissionableDevice isIPv6 r =
     \<lparr>cdAddresses = map toServerAddressIp (sortServerEntries isIPv6 (map snd (caddresses r))),
      cdProps = AList.delete ''expires'' (cprops r)\<rparr>"

definition getCommissionableDeviceRecords ::
  "(string \<Rightarrow> bool) \<Rightarrow> MdnsScanner \<Rightarrow> CommissionableDeviceIdentifiers \<Rightarrow> CommissionableDevice list" where
  "getCommissionableDeviceRecords isIPv6 s identifier =
     (let storedRecords = map snd (commissionableDeviceRecords s);
          foundRecords = filter (identifierFilter identifier) storedRecords
      in map (toCommissionableDevice isIPv6) foundRecords)"

subsection \<open>Query identifiers\<close>

text \<open>A number in a template literal: its decimal digits.\<close>

fun showNat :: "nat \<Rightarrow> string" where
  "showNat n =
     (if n < 10 then [char_of (48 + n)]
      else showNat (n div 10) @ [char_of (48 + n mod 10)])"

declare showNat.simps [simp del]

definition showInt :: "int \<Rightarrow> string" where
  "showInt i = (if i < 0 then CHR ''-'' # showNat (nat (- i)) else showNat (nat i))"

text \<open>
  Modelled from the spec: the name builders of \<^verbatim>\<open>MdnsConsts.js\<close>, which is not among
  the sources. The specification lists the names: instance
  \<^verbatim>\<open><instanceId>._matterc._udp.local\<close>, long discriminator
  \<^verbatim>\<open>_L<D>._sub._matterc._udp.local\<close>, short discriminator \<^verbatim>\<open>_S<SD>._sub...\<close>, vendor
  \<^verbatim>\<open>_V<vendor>._sub...\<close>, device type \<^verbatim>\<open>_T<dt>._sub...\<close>, commissioning mode
  \<^verbatim>\<open>_CM._sub._matterc._udp.local\<close>.
\<close>

definition getDeviceInstanceQname :: "string \<Rightarrow> string" where
  "getDeviceInstanceQname i = i @ ''.'' @ MATTER_COMMISSION_SERVICE_QNAME"

definition getLongDiscriminatorQname :: "int \<Rightarrow> string" where
  "getLongDiscriminatorQname d = ''_L'' @ showInt d @ ''._sub.'' @ MATTER_COMMISSION_SERVICE_QNAME"

definition getShortDiscriminatorQname :: "int \<Rightarrow> string" where
  "getShortDiscriminatorQname d = ''_S'' @ showInt d @ ''._sub.'' @ MATTER_COMMISSION_SERVICE_QNAME"

definition getVendorQname :: "int \<Rightarrow> string" where
  "getVendorQname v = ''_V'' @ showInt v @ ''._sub.'' @ MATTER_COMMISSION_SERVICE_QNAME"

definition getDeviceTypeQname :: "int \<Rightarrow> string" where
  "getDeviceTypeQname t = ''_T'' @ showInt t @ ''._sub.'' @ MATTER_COMMISSION_SERVICE_QNAME"

definition getCommissioningModeQname :: string where
  "getCommissioningModeQname = ''_CM._sub.'' @ MATTER_COMMISSION_SERVICE_QNAME"

definition buildCommissionableQueryIdentifier :: "CommissionableDeviceIdentifiers \<Rightarrow> string" where
  "buildCommissionableQueryIdentifier identifier =
     (case instanceId identifier of
        Some i \<Rightarrow> getDeviceInstanceQname i
      | None \<Rightarrow>
     (case longDiscriminator identifier of
        Some d \<Rightarrow> getLongDiscriminatorQname d
      | None \<Rightarrow>
     (case shortDiscriminator identifier of
        Some d \<Rightarrow> getShortDiscriminatorQname d
      | None \<Rightarrow>
     (case (vendorId identifier, productId identifier) of
        (Some v, Some p) \<Rightarrow> ''_VP'' @ showInt v @ ''+'' @ showInt p
      | (Some v, None) \<Rightarrow> getVendorQname v
      | (None, pid) \<Rightarrow>
     (case deviceType identifier of
        Some t \<Rightarrow> getDeviceTypeQname t
      | None \<Rightarrow>
     (case pid of
        Some p \<Rightarrow> ''_P'' @ showInt p
      | None \<Rightarrow> getCommissioningModeQname))))))"

definition getCommissionableQueryRecords :: "CommissionableDeviceIdentifiers \<Rightarrow> DnsQuery list" where
  "getCommissionableQueryRecords identifier =
     (let names =
            [MATTER_COMMISSION_SERVICE_QNAME,
             (case instanceId identifier of
                Some i \<Rightarrow> getDeviceInstanceQname i
              | None \<Rightarrow>
             (case longDiscriminator identifier of
                Some d \<Rightarrow> getLongDiscriminatorQname d
              | None \<Rightarrow>
             (case shortDiscriminator identifier of
                Some d \<Rightarrow> getShortDiscriminatorQname d
              | None \<Rightarrow>
             (case vendorId identifier of
                Some v \<Rightarrow> getVendorQname v
              | None \<Rightarrow>
             (case deviceType identifier of
                Some t \<Rightarrow> getDeviceTypeQname t
              | None \<Rightarrow> getCommissioningModeQname)))))]
      in map (\<lambda>n. \<lparr>name = n, recordType = PTR, recordClass = IN\<rparr>) names)"

subsection \<open>The public discovery calls\<close>

text \<open>
  A call either throws, or runs to its first \<^verbatim>\<open>await\<close> of a waiter promise (the
  scanner as it is left there, and the query identifier waited on), or returns.
\<close>

datatype error = ImplementationError string

datatype 'a outcome = Returned 'a | Awaiting string

text \<open>
  \<^verbatim>\<open>findOperationalDevice\<close>; \<open>deviceMatterQname\<close> is the name that
  \<^verbatim>\<open>createOperationalMatterQName\<close> computes from the fabric and the node id.
\<close>

definition findOperationalDevice ::
  "(string \<Rightarrow> bool) \<Rightarrow> MdnsScanner \<Rightarrow> string \<Rightarrow> rat option \<Rightarrow> bool
     \<Rightarrow> error + (OperationalDevice option outcome \<times> MdnsScanner)" where
  "findOperationalDevice isIPv6 s deviceMatterQname timeoutSeconds ignoreExistingRecords =
     (if closing s then
        Inl (ImplementationError ''Cannot discover operational device because scanner is closing.'')
      else
        (let storedDevice = (if ignoreExistingRecords then None
                             else getOperationalDeviceRecords isIPv6 s deviceMatterQname)
         in case storedDevice of
              None \<Rightarrow>
                (let s1 = registerWaiterPromise s deviceMatterQname timeoutSeconds True;
                     s2 = setQueryRecords s1 deviceMatterQname
                            [\<lparr>name = deviceMatterQname, recordType = SRV, recordClass = IN\<rparr>] []
                 in Inr (Awaiting deviceMatterQname, s2))
            | Some d \<Rightarrow> Inr (Returned (Some d), s)))"

text \<open>What \<^verbatim>\<open>findOperationalDevice\<close> does once the promise is resolved.\<close>

definition findOperationalDeviceResumed ::
  "(string \<Rightarrow> bool) \<Rightarrow> MdnsScanner \<Rightarrow> string \<Rightarrow> OperationalDevice option \<times> MdnsScanner" where
  "findOperationalDeviceResumed isIPv6 s deviceMatterQname =
     (getOperationalDeviceRecords isIPv6 s deviceMatterQname, removeQuery s deviceMatterQname)"

text \<open>
  \<^verbatim>\<open>findCommissionableDevices\<close>; \<open>timeoutSeconds = None\<close> is the omitted argument,
  with its default 5.
\<close>

definition findCommissionableDevices ::
  "(string \<Rightarrow> bool) \<Rightarrow> MdnsScanner \<Rightarrow> CommissionableDeviceIdentifiers \<Rightarrow> rat option \<Rightarrow> bool
     \<Rightarrow> error + (CommissionableDevice list outcome \<times> MdnsScanner)" where
  "findCommissionableDevices isIPv6 s identifier timeoutSeconds ignoreExistingRecords =
     (let seconds = (case timeoutSeconds of None \<Rightarrow> 5 | Some t \<Rightarrow> t);
          storedRecords =
            (if ignoreExistingRecords then []
             else filter (\<lambda>d. length (cdAddresses d) > 0)
                    (getCommissionableDeviceRecords isIPv6 s identifier))
      in if length storedRecords = 0 then
           (let queryId = buildCommissionableQueryIdentifier identifier;
                s1 = registerWaiterPromise s queryId (Some seconds) True;
                s2 = setQueryRecords s1 queryId (getCommissionableQueryRecords identifier) []
            in Inr (Awaiting queryId, s2))
         else Inr (Returned storedRecords, s))"

definition findCommissionableDevicesResumed ::
  "(string \<Rightarrow> bool) \<Rightarrow> MdnsScanner \<Rightarrow> CommissionableDeviceIdentifiers
     \<Rightarrow> CommissionableDevice list \<times> MdnsScanner" where
  "findCommissionableDevicesResumed isIPv6 s identifier =
     (getCommissionableDeviceRecords isIPv6 s identifier,
      removeQuery s (buildCommissionableQueryIdentifier identifier))"

subsection \<open>Continuous discovery\<close>

text \<open>
  \<^verbatim>\<open>timeoutSeconds ? Time.nowMs() + timeoutSeconds * 1000 : undefined\<close>: an omitted
  timeout and the timeout 0 give no end time.
\<close>

definition discoveryEndTimeOf :: "int \<Rightarrow> rat option \<Rightarrow> rat option" where
  "discoveryEndTimeOf now timeoutSeconds =
     (case timeoutSeconds of
        None \<Rightarrow> None
      | Some t \<Rightarrow> if t = 0 then None else Some (of_int now + t * 1000))"

definition startContinuousDiscovery ::
  "MdnsScanner \<Rightarrow> CommissionableDeviceIdentifiers \<Rightarrow> MdnsScanner" where
  "startContinuousDiscovery s identifier =
     setQueryRecords s (buildCommissionableQueryIdentifier identifier)
       (getCommissionableQueryRecords identifier) []"

text \<open>
  The \<^verbatim>\<open>forEach\<close> at the head of the loop: the set \<^verbatim>\<open>discoveredDevices\<close> and the
  devices handed to the callback, in order.
\<close>

fun emitNewDevices ::
  "CommissionableDevice list \<Rightarrow> JsVal option list \<Rightarrow> CommissionableDevice list
     \<Rightarrow> JsVal option list \<times> CommissionableDevice list" where
  "emitNewDevices [] discoveredDevices calls = (discoveredDevices, calls)"
| "emitNewDevices (device # devices) discoveredDevices calls =
     (let ident = getProp (cdProps device) ''deviceIdentifier'' in
      if ident \<notin> set discoveredDevices
      then emitNewDevices devices (discoveredDevices @ [ident]) (calls @ [device])
      else emitNewDevices devices discoveredDevices calls)"

datatype loopStep = Break | AwaitWaiter MdnsScanner

text \<open>
  One turn of \<^verbatim>\<open>while (!canceled)\<close>, entered at the time \<open>now\<close>. The body declares
  \<^verbatim>\<open>let remainingTime;\<close> and, inside the \<^verbatim>\<open>if\<close>, a second
  \<^verbatim>\<open>const remainingTime = Math.ceil(...)\<close>: the inner one is compared with 0, the
  outer one, never assigned, is the argument of \<^verbatim>\<open>registerWaiterPromise\<close>.
\<close>

definition continuousDiscoveryTurn ::
  "(string \<Rightarrow> bool) \<Rightarrow> MdnsScanner \<Rightarrow> CommissionableDeviceIdentifiers \<Rightarrow> JsVal option list
     \<Rightarrow> rat option \<Rightarrow> int \<Rightarrow> (JsVal option list \<times> CommissionableDevice list) \<times> loopStep" where
  "continuousDiscoveryTurn isIPv6 s identifier discoveredDevices discoveryEndTime now =
     (let queryId = buildCommissionableQueryIdentifier identifier;
          emitted = emitNewDevices (getCommissionableDeviceRecords isIPv6 s identifier)
                      discoveredDevices [];
          remainingTime = (None :: rat option)
      in case discoveryEndTime of
           Some endTime \<Rightarrow>
             (let remainingTimeInner = \<lceil>(endTime - of_int now) / 1000\<rceil> in
              if remainingTimeInner \<le> 0 then (emitted, Break)
              else (emitted, AwaitWaiter (registerWaiterPromise s queryId remainingTime False)))
         | None \<Rightarrow> (emitted, AwaitWaiter (registerWaiterPromise s queryId remainingTime False)))"

subsection \<open>Notions used to state the properties\<close>

text \<open>The items of a TXT value, and the key of an item: the text before its first \<^verbatim>\<open>=\<close>.\<close>

definition txtItems :: "'a DnsRecord_scheme \<Rightarrow> string list" where
  "txtItems rec = (case rvalue rec of TxtValue v \<Rightarrow> v | _ \<Rightarrow> [])"

definition itemKey :: "string \<Rightarrow> string" where
  "itemKey item = (case split (CHR ''='') item of [] \<Rightarrow> [] | key # rest \<Rightarrow> key)"


text \<open>
  The flattened queries of the active query set, and the length of the encoded message
  that carries the queries \<open>qs\<close> and no answer (\<^verbatim>\<open>emptyDnsMessage.length\<close>).
\<close>

definition flattenedQueries :: "MdnsScanner \<Rightarrow> DnsQuery list" where
  "flattenedQueries s = concat (map (\<lambda>kv. queries (snd kv)) (activeAnnounceQueries s))"

definition emptyMessageLength :: "(DnsMessage \<Rightarrow> Bytes) \<Rightarrow> DnsQuery list \<Rightarrow> nat" where
  "emptyMessageLength encode qs =
     length (encode \<lparr>messageType = TruncatedQuery, transactionId = 0, msgQueries = qs,
                     msgAnswers = [], authorities = [], additionalRecords = []\<rparr>)"

subsection \<open>Inputs of the examples\<close>

text \<open>
  A codec for the examples: a message is a header of 12 bytes, 40 bytes for each query,
  and its answers as they were encoded.
\<close>

definition sampleEncode :: "DnsMessage \<Rightarrow> Bytes" where
  "sampleEncode m = replicate (12 + 40 * length (msgQueries m)) 0 @ concat (msgAnswers m)"

definition encodeTo :: "nat \<Rightarrow> DnsRecord \<Rightarrow> Bytes" where
  "encodeTo n r = replicate n 0"

definition threeQueries :: "DnsQuery list" where
  "threeQueries =
     [\<lparr>name = ''_matterc._udp.local'', recordType = PTR, recordClass = IN\<rparr>,
      \<lparr>name = ''_CM._sub._matterc._udp.local'', recordType = PTR, recordClass = IN\<rparr>,
      \<lparr>name = ''host.local'', recordType = AAAA, recordClass = IN\<rparr>]"

definition knownAddress :: DnsRecord where
  "knownAddress =
     \<lparr>name = ''host.local'', recordType = AAAA, recordClass = IN, ttl = 120,
      rvalue = IpValue ''fd12::1''\<rparr>"

text \<open>A scanner with one active query set: three queries and \<open>n\<close> known answers.\<close>

definition scannerWithAnswers :: "nat \<Rightarrow> MdnsScanner" where
  "scannerWithAnswers n =
     (newScanner True)\<lparr>activeAnnounceQueries :=
        [(''_CM._sub._matterc._udp.local'',
          \<lparr>queries = threeQueries, answers = replicate n knownAddress\<rparr>)]\<rparr>"

text \<open>
  An operational response: the SRV record of a device, with TTL 120, and the AAAA
  record of its target (\<open>knownAddress\<close>, TTL 120).
\<close>

definition operationalSrv :: DnsRecord where
  "operationalSrv =
     \<lparr>name = ''0102030405060708-00000000AAAA0001._matter._tcp.local'', recordType = SRV,
      recordClass = IN, ttl = 120, rvalue = SrvValue ''host.local'' 5540\<rparr>"

text \<open>
  A cached commissionable device with one address, as the TXT and SRV handlers leave
  it, and a scanner whose cache holds one device with \<^verbatim>\<open>CM = 0\<close> and one with
  \<^verbatim>\<open>CM = 2\<close>.
\<close>

definition cachedDevice :: "string \<Rightarrow> int \<Rightarrow> CommissionableDeviceRecordWithExpire" where
  "cachedDevice i cm =
     \<lparr>caddresses = [(''fd12::1'', \<lparr>ip = ''fd12::1'', port = 5540, addrType = ''udp'',
                                    discoveredAt = Some 1000, addrTtl = Some 120000\<rparr>)],
      cprops = [(''expires'', Num 121000), (''D'', Num 3840), (''CM'', Num cm), (''T'', Num 0),
                (''ICD'', Num 0), (''instanceId'', Str i), (''deviceIdentifier'', Str i),
                (''SD'', Num 15)]\<rparr>"

definition scannerWithDevices :: MdnsScanner where
  "scannerWithDevices =
     (newScanner True)\<lparr>commissionableDeviceRecords :=
        [(''A1._matterc._udp.local'', cachedDevice ''A1'' 0),
         (''B2._matterc._udp.local'', cachedDevice ''B2'' 2)]\<rparr>"

definition hasColon :: "string \<Rightarrow> bool" where
  "hasColon a = (CHR '':'' \<in> set a)"

section \<open>Properties\<close>

subsection \<open>Address sorter\<close>

lemma fd_not_fe80: "startsWith s ''fd'' \<Longrightarrow> \<not> startsWith s ''fe80:''"
  by (cases s; cases "tl s") (auto simp: startsWith_def)

lemma compareEntries_specRank:
  "(compareEntries f a b \<le> 0) = (specRank f a \<le> specRank f b)"
  using fd_not_fe80[of "ip a"] fd_not_fe80[of "ip b"]
  by (auto simp add: compareEntries_def specRank_def Let_def)

lemma insertBy_insort_key:
  "insertBy (compareEntries f) x ys = insort_key (specRank f) x ys"
  by (induction ys) (simp_all add: compareEntries_specRank)

lemma sortServerEntries_sort_key:
  "sortServerEntries f xs = sort_key (specRank f) xs"
  by (induction xs)
     (simp_all add: sortServerEntries_def sortBy_def insertBy_insort_key sort_key_def)

text \<open>
  C9. For any permutation \<open>ys\<close> of a list \<open>xs\<close> of entries, the address sorter returns
  the entries of \<open>xs\<close> in the order of the rank (IPv6 unique-local \<^verbatim>\<open>fd\<close> first, IPv6
  link-local \<^verbatim>\<open>fe80:\<close> second, other IPv6 third, IPv4 last), and the entries of each
  rank keep the order they had in the input \<open>ys\<close>.
\<close>

theorem sortServerEntries_rank_order:
  assumes "mset ys = mset xs"
  shows "sorted (map (specRank f) (sortServerEntries f ys))
       \<and> mset (sortServerEntries f ys) = mset xs
       \<and> (\<forall>k. filter (\<lambda>e. specRank f e = k) (sortServerEntries f ys)
               = filter (\<lambda>e. specRank f e = k) ys)"
  using assms by (simp add: sortServerEntries_sort_key sort_key_stable)

theorem sortServerEntries_rank_order_witness:
  "mset [\<lparr>ip = ''10.0.0.7'', port = 5540, addrType = ''udp''\<rparr>,
         \<lparr>ip = ''fe80::1'', port = 5540, addrType = ''udp''\<rparr>,
         \<lparr>ip = ''2001:db8::2'', port = 5540, addrType = ''udp''\<rparr>,
         \<lparr>ip = ''fd12::1'', port = 5540, addrType = ''udp''\<rparr>]
   = mset [\<lparr>ip = ''fd12::1'', port = 5540, addrType = ''udp''\<rparr>,
           \<lparr>ip = ''2001:db8::2'', port = 5540, addrType = ''udp''\<rparr>,
           \<lparr>ip = ''10.0.0.7'', port = 5540, addrType = ''udp''\<rparr>,
           \<lparr>ip = ''fe80::1'', port = 5540, addrType = ''udp''\<rparr>]
   \<and> sorted (map (specRank (\<lambda>a. CHR '':'' \<in> set a))
        (sortServerEntries (\<lambda>a. CHR '':'' \<in> set a)
           [\<lparr>ip = ''10.0.0.7'', port = 5540, addrType = ''udp''\<rparr>,
            \<lparr>ip = ''fe80::1'', port = 5540, addrType = ''udp''\<rparr>,
            \<lparr>ip = ''2001:db8::2'', port = 5540, addrType = ''udp''\<rparr>,
            \<lparr>ip = ''fd12::1'', port = 5540, addrType = ''udp''\<rparr>]))
   \<and> map ip (sortServerEntries (\<lambda>a. CHR '':'' \<in> set a)
           [\<lparr>ip = ''10.0.0.7'', port = 5540, addrType = ''udp''\<rparr>,
            \<lparr>ip = ''fe80::1'', port = 5540, addrType = ''udp''\<rparr>,
            \<lparr>ip = ''2001:db8::2'', port = 5540, addrType = ''udp''\<rparr>,
            \<lparr>ip = ''fd12::1'', port = 5540, addrType = ''udp''\<rparr>])
     = [''fd12::1'', ''fe80::1'', ''2001:db8::2'', ''10.0.0.7'']"
proof -
  have perm:
    "mset [\<lparr>ip = ''10.0.0.7'', port = 5540, addrType = ''udp''\<rparr>,
           \<lparr>ip = ''fe80::1'', port = 5540, addrType = ''udp''\<rparr>,
           \<lparr>ip = ''2001:db8::2'', port = 5540, addrType = ''udp''\<rparr>,
           \<lparr>ip = ''fd12::1'', port = 5540, addrType = ''udp''\<rparr>]
     = mset [\<lparr>ip = ''fd12::1'', port = 5540, addrType = ''udp''\<rparr>,
             \<lparr>ip = ''2001:db8::2'', port = 5540, addrType = ''udp''\<rparr>,
             \<lparr>ip = ''10.0.0.7'', port = 5540, addrType = ''udp''\<rparr>,
             \<lparr>ip = ''fe80::1'', port = 5540, addrType = ''udp''\<rparr>]"
    by simp
  have order:
    "map ip (sortServerEntries (\<lambda>a. CHR '':'' \<in> set a)
           [\<lparr>ip = ''10.0.0.7'', port = 5540, addrType = ''udp''\<rparr>,
            \<lparr>ip = ''fe80::1'', port = 5540, addrType = ''udp''\<rparr>,
            \<lparr>ip = ''2001:db8::2'', port = 5540, addrType = ''udp''\<rparr>,
            \<lparr>ip = ''fd12::1'', port = 5540, addrType = ''udp''\<rparr>])
     = [''fd12::1'', ''fe80::1'', ''2001:db8::2'', ''10.0.0.7'']"
    by (simp add: sortServerEntries_def sortBy_def compareEntries_def startsWith_def)
  from sortServerEntries_rank_order[OF perm, of "\<lambda>a. CHR '':'' \<in> set a"] perm order
  show ?thesis by blast
qed

subsection \<open>TXT parser\<close>

lemma getProp_setProp:
  "getProp (setProp k v obj) k' = (if k' = k then Some v else getProp obj k')"
  by (simp add: getProp_def setProp_def update_conv')

lemma parseTxtItem_other_key:
  "k \<noteq> itemKey item \<Longrightarrow> getProp (parseTxtItem r item) k = getProp r k"
  by (auto simp add: parseTxtItem_def itemKey_def getProp_setProp split: list.splits option.splits)

lemma foldl_parseTxtItem_other_key:
  "k \<notin> set (map itemKey v) \<Longrightarrow> getProp (foldl parseTxtItem r v) k = getProp r k"
  by (induction v arbitrary: r) (simp_all add: parseTxtItem_other_key)

lemma parseTxtItems_absent:
  "k \<notin> set (map itemKey (txtItems rec)) \<Longrightarrow> getProp (parseTxtItems rec) k = None"
  by (cases "rvalue rec")
     (simp_all add: parseTxtItems_def txtItems_def foldl_parseTxtItem_other_key,
      simp_all add: getProp_def)

lemma parseTxtRecord_T:
  "getProp (parseTxtRecord rec) ''T'' =
     (if getProp (parseTxtItems rec) ''T'' = None \<or> getProp (parseTxtItems rec) ''T'' = Some (Num 1)
      then Some (Num 0) else getProp (parseTxtItems rec) ''T'')"
  by (simp add: parseTxtRecord_def Let_def getProp_setProp)

lemma parseTxtRecord_ICD:
  "getProp (parseTxtRecord rec) ''ICD'' =
     (if getProp (parseTxtItems rec) ''ICD'' = None
      then Some (Num 0) else getProp (parseTxtItems rec) ''ICD'')"
  by (simp add: parseTxtRecord_def Let_def getProp_setProp)

lemma parseTxtRecord_other_key:
  "k \<noteq> ''T'' \<Longrightarrow> k \<noteq> ''ICD'' \<Longrightarrow>
   getProp (parseTxtRecord rec) k = getProp (parseTxtItems rec) k"
  by (simp add: parseTxtRecord_def Let_def getProp_setProp)

lemma spread_Cons: "spread t (kv # s) = spread (setProp (fst kv) (snd kv) t) s"
  by (simp add: spread_def)

lemma map_of_spread:
  "map_of (spread t s) k = (case map_of (rev s) k of None \<Rightarrow> map_of t k | Some v \<Rightarrow> Some v)"
proof (induction s arbitrary: t)
  case Nil
  then show ?case by (simp add: spread_def)
next
  case (Cons kv s)
  show ?case
    unfolding spread_Cons Cons.IH
    by (cases kv) (simp add: setProp_def update_conv' map_add_def split: option.splits)
qed

lemma distinct_setProp: "distinct (map fst obj) \<Longrightarrow> distinct (map fst (setProp k v obj))"
  by (simp add: setProp_def distinct_update)

lemma distinct_parseTxtItem: "distinct (map fst r) \<Longrightarrow> distinct (map fst (parseTxtItem r item))"
  by (auto simp add: parseTxtItem_def distinct_setProp split: list.splits option.splits)

lemma distinct_foldl_parseTxtItem:
  "distinct (map fst r) \<Longrightarrow> distinct (map fst (foldl parseTxtItem r v))"
  by (induction v arbitrary: r) (simp_all add: distinct_parseTxtItem)

lemma distinct_parseTxtItems: "distinct (map fst (parseTxtItems rec))"
  by (cases "rvalue rec") (simp_all add: parseTxtItems_def distinct_foldl_parseTxtItem)

lemma distinct_parseTxtRecord: "distinct (map fst (parseTxtRecord rec))"
  by (simp add: parseTxtRecord_def Let_def distinct_setProp distinct_parseTxtItems)

lemma map_of_rev_distinct: "distinct (map fst xs) \<Longrightarrow> map_of (rev xs) = map_of xs"
  by (subst map_of_inject_set) (simp_all add: rev_map[symmetric])

lemma getProp_spread:
  "distinct (map fst s) \<Longrightarrow>
   getProp (spread t s) k = (case getProp s k of None \<Rightarrow> getProp t k | Some v \<Rightarrow> Some v)"
  by (simp add: getProp_def map_of_spread map_of_rev_distinct split: option.splits)

lemma parsed_props:
  "parseCommissionableTxtRecord now rec = Some parsed \<Longrightarrow> k \<noteq> ''expires'' \<Longrightarrow>
   getProp (cprops parsed) k = getProp (parseTxtRecord rec) k"
  by (cases "rvalue rec")
     (auto simp add: parseCommissionableTxtRecord_def Let_def getProp_spread distinct_parseTxtRecord
        getProp_def[of "[_]"] split: option.splits if_splits)

lemma parseCommissionable_missing:
  assumes "getProp (parseTxtItems rec) ''D'' = None \<or> getProp (parseTxtItems rec) ''CM'' = None"
  shows "parseCommissionableTxtRecord now rec = None"
  using assms
  by (cases "rvalue rec")
     (auto simp add: parseCommissionableTxtRecord_def Let_def getProp_spread distinct_parseTxtRecord
        parseTxtRecord_other_key getProp_def[of "[_]"] split: option.splits)

text \<open>
  C8. The TXT parser sets \<^verbatim>\<open>T\<close> to 0 when no item has the key \<^verbatim>\<open>T\<close> or when the
  parsed value of \<^verbatim>\<open>T\<close> is the reserved value 1, sets \<^verbatim>\<open>ICD\<close> to 0 when no item has
  the key \<^verbatim>\<open>ICD\<close>, and the parse of a commissionable record returns no record when no
  item has the key \<^verbatim>\<open>D\<close> or no item has the key \<^verbatim>\<open>CM\<close>.
\<close>

theorem parseTxtRecord_defaults:
  "(''T'' \<notin> set (map itemKey (txtItems rec)) \<longrightarrow> getProp (parseTxtRecord rec) ''T'' = Some (Num 0))
   \<and> (getProp (parseTxtItems rec) ''T'' = Some (Num 1)
        \<longrightarrow> getProp (parseTxtRecord rec) ''T'' = Some (Num 0))
   \<and> (''ICD'' \<notin> set (map itemKey (txtItems rec))
        \<longrightarrow> getProp (parseTxtRecord rec) ''ICD'' = Some (Num 0))
   \<and> (''D'' \<notin> set (map itemKey (txtItems rec)) \<or> ''CM'' \<notin> set (map itemKey (txtItems rec))
        \<longrightarrow> parseCommissionableTxtRecord now rec = None)"
proof -
  have t_absent: "''T'' \<notin> set (map itemKey (txtItems rec)) \<longrightarrow> getProp (parseTxtRecord rec) ''T'' = Some (Num 0)"
    using parseTxtItems_absent[of "''T''" rec] by (simp add: parseTxtRecord_T)
  have t_reserved: "getProp (parseTxtItems rec) ''T'' = Some (Num 1)
        \<longrightarrow> getProp (parseTxtRecord rec) ''T'' = Some (Num 0)"
    by (simp add: parseTxtRecord_T)
  have icd: "''ICD'' \<notin> set (map itemKey (txtItems rec))
        \<longrightarrow> getProp (parseTxtRecord rec) ''ICD'' = Some (Num 0)"
    using parseTxtItems_absent[of "''ICD''" rec] by (simp add: parseTxtRecord_ICD)
  have required: "''D'' \<notin> set (map itemKey (txtItems rec)) \<or> ''CM'' \<notin> set (map itemKey (txtItems rec))
        \<longrightarrow> parseCommissionableTxtRecord now rec = None"
    using parseTxtItems_absent[of "''D''" rec] parseTxtItems_absent[of "''CM''" rec]
      parseCommissionable_missing[of rec now]
    by blast
  from t_absent t_reserved icd required show ?thesis by blast
qed

theorem parseTxtRecord_defaults_witness:
  "''T'' \<notin> set (map itemKey (txtItems
       \<lparr>name = ''A1._matterc._udp.local'', recordType = TXT, recordClass = IN, ttl = 120,
        rvalue = TxtValue [''D=3840'', ''CM=2'']\<rparr>))
   \<and> getProp (parseTxtRecord
       \<lparr>name = ''A1._matterc._udp.local'', recordType = TXT, recordClass = IN, ttl = 120,
        rvalue = TxtValue [''D=3840'', ''CM=2'']\<rparr>) ''T'' = Some (Num 0)
   \<and> getProp (parseTxtItems
       \<lparr>name = ''A2._matterc._udp.local'', recordType = TXT, recordClass = IN, ttl = 120,
        rvalue = TxtValue [''CM=2'', ''T=1'']\<rparr>) ''T'' = Some (Num 1)
   \<and> getProp (parseTxtRecord
       \<lparr>name = ''A2._matterc._udp.local'', recordType = TXT, recordClass = IN, ttl = 120,
        rvalue = TxtValue [''CM=2'', ''T=1'']\<rparr>) ''T'' = Some (Num 0)
   \<and> ''ICD'' \<notin> set (map itemKey (txtItems
       \<lparr>name = ''A2._matterc._udp.local'', recordType = TXT, recordClass = IN, ttl = 120,
        rvalue = TxtValue [''CM=2'', ''T=1'']\<rparr>))
   \<and> getProp (parseTxtRecord
       \<lparr>name = ''A2._matterc._udp.local'', recordType = TXT, recordClass = IN, ttl = 120,
        rvalue = TxtValue [''CM=2'', ''T=1'']\<rparr>) ''ICD'' = Some (Num 0)
   \<and> ''D'' \<notin> set (map itemKey (txtItems
       \<lparr>name = ''A2._matterc._udp.local'', recordType = TXT, recordClass = IN, ttl = 120,
        rvalue = TxtValue [''CM=2'', ''T=1'']\<rparr>))
   \<and> parseCommissionableTxtRecord 1000
       \<lparr>name = ''A2._matterc._udp.local'', recordType = TXT, recordClass = IN, ttl = 120,
        rvalue = TxtValue [''CM=2'', ''T=1'']\<rparr> = None"
proof -
  let ?r1 = "\<lparr>name = ''A1._matterc._udp.local'', recordType = TXT, recordClass = IN, ttl = 120,
        rvalue = TxtValue [''D=3840'', ''CM=2'']\<rparr>"
  let ?r2 = "\<lparr>name = ''A2._matterc._udp.local'', recordType = TXT, recordClass = IN, ttl = 120,
        rvalue = TxtValue [''CM=2'', ''T=1'']\<rparr>"
  have h1: "''T'' \<notin> set (map itemKey (txtItems ?r1))"
    by (simp add: txtItems_def itemKey_def)
  have h2: "getProp (parseTxtItems ?r2) ''T'' = Some (Num 1)"
    by code_simp
  have h3: "''ICD'' \<notin> set (map itemKey (txtItems ?r2))"
    by (simp add: txtItems_def itemKey_def)
  have h4: "''D'' \<notin> set (map itemKey (txtItems ?r2))"
    by (simp add: txtItems_def itemKey_def)
  from parseTxtRecord_defaults[of ?r1 1000] parseTxtRecord_defaults[of ?r2 1000] h1 h2 h3 h4
  show ?thesis by blast
qed

subsection \<open>Short discriminator of a commissionable record\<close>

lemma shortDiscriminatorOf_bits: "shortDiscriminatorOf d = (d div 256) mod 16"
proof -
  let ?w = "word_of_int d :: 32 word"
  have m: "(0x0f :: 32 word) = mask 4"
    by (simp add: mask_eq_exp_minus_1)
  have a: "signed_drop_bit 8 ?w AND 0x0f = take_bit 4 (drop_bit 8 ?w)"
    unfolding m by (rule bit_eqI) (auto simp add: bit_simps)
  have c: "sint (take_bit 4 (drop_bit 8 ?w)) = take_bit 4 (drop_bit 8 d)"
    by (rule bit_eqI) (auto simp add: bit_simps bit_sint_iff)
  show ?thesis
    unfolding shortDiscriminatorOf_def a c
    by (simp add: take_bit_eq_mod drop_bit_eq_div)
qed

lemma parseTxtItem_number:
  "k \<in> set intKeys \<Longrightarrow> getProp r k = None \<or> (\<exists>d. getProp r k = Some (Num d)) \<Longrightarrow>
   getProp (parseTxtItem r item) k = None \<or> (\<exists>d. getProp (parseTxtItem r item) k = Some (Num d))"
  by (auto simp add: parseTxtItem_def getProp_setProp split: list.splits option.splits)

lemma foldl_parseTxtItem_number:
  "k \<in> set intKeys \<Longrightarrow> getProp r k = None \<or> (\<exists>d. getProp r k = Some (Num d)) \<Longrightarrow>
   getProp (foldl parseTxtItem r v) k = None
     \<or> (\<exists>d. getProp (foldl parseTxtItem r v) k = Some (Num d))"
proof (induction v arbitrary: r)
  case Nil
  then show ?case by simp
next
  case (Cons item v)
  show ?case
    using Cons.IH[OF Cons.prems(1) parseTxtItem_number[OF Cons.prems]] by simp
qed

lemma parseTxtItems_number:
  assumes "k \<in> set intKeys"
  shows "getProp (parseTxtItems rec) k = None \<or> (\<exists>d. getProp (parseTxtItems rec) k = Some (Num d))"
proof (cases "rvalue rec")
  case (TxtValue v)
  from foldl_parseTxtItem_number[OF assms, of "[]" v] TxtValue show ?thesis
    by (simp add: parseTxtItems_def getProp_def)
qed (simp_all add: parseTxtItems_def getProp_def)

lemma parseTxtItem_unknown_key:
  "k \<notin> set intKeys \<Longrightarrow> k \<notin> set strKeys \<Longrightarrow> getProp (parseTxtItem r item) k = getProp r k"
  by (auto simp add: parseTxtItem_def getProp_setProp split: list.splits option.splits)

lemma foldl_parseTxtItem_unknown_key:
  "k \<notin> set intKeys \<Longrightarrow> k \<notin> set strKeys \<Longrightarrow> getProp (foldl parseTxtItem r v) k = getProp r k"
  by (induction v arbitrary: r) (simp_all add: parseTxtItem_unknown_key)

lemma parseTxtItems_unknown_key:
  "k \<notin> set intKeys \<Longrightarrow> k \<notin> set strKeys \<Longrightarrow> getProp (parseTxtItems rec) k = None"
  by (cases "rvalue rec")
     (simp_all add: parseTxtItems_def foldl_parseTxtItem_unknown_key, simp_all add: getProp_def)

lemma completeParsedRecord_SD:
  assumes "getProp p ''D'' = Some (Num d)" and "getProp p ''SD'' = None"
  shows "getProp (completeParsedRecord nm p) ''SD'' = Some (Num (shortDiscriminatorOf d))
       \<and> getProp (completeParsedRecord nm p) ''D'' = Some (Num d)"
  using assms
  by (auto simp add: completeParsedRecord_def Let_def getProp_setProp
        split: option.splits JsVal.splits list.splits)

lemma parsed_D_SD:
  assumes "parseCommissionableTxtRecord now rec = Some parsed"
  shows "(\<exists>d. getProp (cprops parsed) ''D'' = Some (Num d)) \<and> getProp (cprops parsed) ''SD'' = None"
proof -
  have D: "getProp (cprops parsed) ''D'' = getProp (parseTxtItems rec) ''D''"
    using parsed_props[OF assms, of "''D''"] by (simp add: parseTxtRecord_other_key)
  have SD: "getProp (cprops parsed) ''SD'' = getProp (parseTxtItems rec) ''SD''"
    using parsed_props[OF assms, of "''SD''"] by (simp add: parseTxtRecord_other_key)
  have "getProp (cprops parsed) ''D'' \<noteq> None"
    using assms
    by (cases "rvalue rec")
       (auto simp add: parseCommissionableTxtRecord_def Let_def split: if_splits)
  moreover have "getProp (parseTxtItems rec) ''D'' = None
      \<or> (\<exists>d. getProp (parseTxtItems rec) ''D'' = Some (Num d))"
    by (rule parseTxtItems_number) (simp add: intKeys_def)
  moreover have "getProp (parseTxtItems rec) ''SD'' = None"
    by (rule parseTxtItems_unknown_key) (simp_all add: intKeys_def strKeys_def)
  ultimately show ?thesis using D SD by auto
qed

text \<open>
  C3, as the code has it. For every commissionable TXT record with a TTL other than 0
  that parses (its keys \<^verbatim>\<open>D\<close> and \<^verbatim>\<open>CM\<close> are present), the record cached under its
  name holds \<^verbatim>\<open>SD = (D >> 8) & 0x0f\<close> for its own \<^verbatim>\<open>D\<close>, which is
  \<open>D div 256 mod 16\<close>; for \<^verbatim>\<open>D = 3840\<close> this value is 15.
\<close>

theorem cached_short_discriminator:
  assumes "ttl rec \<noteq> 0" and "parseCommissionableTxtRecord now rec = Some parsed"
  shows "(\<exists>r d. map_of (fst (handleCommissionableTxtRecord now (cache, missing) rec)) (name rec) = Some r
           \<and> getProp (cprops r) ''D'' = Some (Num d)
           \<and> getProp (cprops r) ''SD'' = Some (Num (shortDiscriminatorOf d))
           \<and> shortDiscriminatorOf d = (d div 256) mod 16)
       \<and> shortDiscriminatorOf 3840 = 15"
proof -
  from parsed_D_SD[OF assms(2)] obtain d where
    d: "getProp (cprops parsed) ''D'' = Some (Num d)" "getProp (cprops parsed) ''SD'' = None"
    by blast
  note c = completeParsedRecord_SD[OF d, of "name rec"]
  have "\<exists>r d. map_of (fst (handleCommissionableTxtRecord now (cache, missing) rec)) (name rec) = Some r
           \<and> getProp (cprops r) ''D'' = Some (Num d)
           \<and> getProp (cprops r) ''SD'' = Some (Num (shortDiscriminatorOf d))
           \<and> shortDiscriminatorOf d = (d div 256) mod 16"
    using assms c
    by (cases "map_of cache (name rec)")
       (auto simp add: handleCommissionableTxtRecord_def Let_def update_conv'
          shortDiscriminatorOf_bits)
  then show ?thesis by (simp add: shortDiscriminatorOf_bits)
qed

theorem cached_short_discriminator_witness:
  "ttl \<lparr>name = ''A1._matterc._udp.local'', recordType = TXT, recordClass = IN, ttl = 120,
        rvalue = TxtValue [''D=3840'', ''CM=2'']\<rparr> \<noteq> 0
   \<and> parseCommissionableTxtRecord 1000
        \<lparr>name = ''A1._matterc._udp.local'', recordType = TXT, recordClass = IN, ttl = 120,
         rvalue = TxtValue [''D=3840'', ''CM=2'']\<rparr>
       = Some \<lparr>caddresses = [],
               cprops = [(''expires'', Num 121000), (''D'', Num 3840), (''CM'', Num 2),
                         (''T'', Num 0), (''ICD'', Num 0)]\<rparr>
   \<and> (\<exists>r d. map_of (fst (handleCommissionableTxtRecord 1000 ([], [])
                \<lparr>name = ''A1._matterc._udp.local'', recordType = TXT, recordClass = IN, ttl = 120,
                 rvalue = TxtValue [''D=3840'', ''CM=2'']\<rparr>)) ''A1._matterc._udp.local'' = Some r
           \<and> getProp (cprops r) ''D'' = Some (Num d)
           \<and> getProp (cprops r) ''SD'' = Some (Num (shortDiscriminatorOf d)))"
proof -
  let ?rec = "\<lparr>name = ''A1._matterc._udp.local'', recordType = TXT, recordClass = IN, ttl = 120,
        rvalue = TxtValue [''D=3840'', ''CM=2'']\<rparr>"
  have h1: "ttl ?rec \<noteq> 0" by simp
  have h2: "parseCommissionableTxtRecord 1000 ?rec
       = Some \<lparr>caddresses = [],
               cprops = [(''expires'', Num 121000), (''D'', Num 3840), (''CM'', Num 2),
                         (''T'', Num 0), (''ICD'', Num 0)]\<rparr>"
    by code_simp
  from cached_short_discriminator[OF h1 h2, of "[]" "[]"] h1 h2 show ?thesis
    by auto
qed

text \<open>
  The value the claim gives for \<^verbatim>\<open>D = 3840\<close> is not the one cached: a response with
  the TXT items \<^verbatim>\<open>D=3840\<close> and \<^verbatim>\<open>CM=2\<close> leaves \<^verbatim>\<open>SD = 15\<close> in the cache, not 0.
\<close>

theorem short_discriminator_3840_counterexample:
  "map_option (\<lambda>r. getProp (cprops r) ''SD'')
     (map_of (fst (handleCommissionableTxtRecords 1000 []
                [\<lparr>name = ''A1._matterc._udp.local'', recordType = TXT, recordClass = IN, ttl = 120,
                  rvalue = TxtValue [''D=3840'', ''CM=2'']\<rparr>] []))
        ''A1._matterc._udp.local'')
   = Some (Some (Num 15))
   \<and> shortDiscriminatorOf 3840 \<noteq> 0"
  by code_simp

subsection \<open>Back-off of the query scheduler\<close>









subsection \<open>Fragments of a broadcast\<close>

lemma packAnswers_length:
  "length out \<le> length (snd (packAnswers encR E as msg sz out))"
proof (induction as arbitrary: msg sz out)
  case Nil
  show ?case by simp
next
  case (Cons a as)
  show ?case
    using Cons.IH[where msg="msg\<lparr>msgQueries := [], msgAnswers := [encR a]\<rparr>" and sz="E + length (encR a)" and out="out @ [msg]"]
      Cons.IH[where msg="msg\<lparr>msgAnswers := msgAnswers msg @ [encR a]\<rparr>" and sz="sz + length (encR a)" and out=out]
    by (simp add: Let_def)
qed

lemma packAnswers_queries:
  "map msgQueries (snd (packAnswers encR E as msg sz out) @ [fst (packAnswers encR E as msg sz out)])
     = map msgQueries out @ msgQueries msg
         # replicate (length (snd (packAnswers encR E as msg sz out)) - length out) []"
proof (induction as arbitrary: msg sz out)
  case Nil
  show ?case by simp
next
  case (Cons a as)
  let ?over = "msg\<lparr>msgQueries := [], msgAnswers := [encR a]\<rparr>"
  let ?fits = "msg\<lparr>msgAnswers := msgAnswers msg @ [encR a]\<rparr>"
  show ?case
  proof (cases "sz + length (encR a) > MAX_MDNS_MESSAGE_SIZE")
    case True
    let ?p = "packAnswers encR E as ?over (E + length (encR a)) (out @ [msg])"
    have step: "packAnswers encR E (a # as) msg sz out = ?p"
      using True by (simp add: Let_def)
    have len: "Suc (length out) \<le> length (snd ?p)"
      using packAnswers_length[where out="out @ [msg]" and encR=encR and E=E and as=as and msg="?over" and sz="E + length (encR a)"] by simp
    then have r: "[] # replicate (length (snd ?p) - Suc (length out)) ([] :: DnsQuery list)
        = replicate (length (snd ?p) - length out) []"
      by (metis Suc_diff_le diff_Suc_Suc replicate_Suc)
    show ?thesis
      unfolding step using Cons.IH[where msg="?over" and sz="E + length (encR a)" and out="out @ [msg]"] r
      by simp
  next
    case False
    then have step: "packAnswers encR E (a # as) msg sz out
        = packAnswers encR E as ?fits (sz + length (encR a)) out"
      by (simp add: Let_def)
    show ?thesis
      unfolding step using Cons.IH[where msg="?fits" and sz="sz + length (encR a)" and out=out]
      by simp
  qed
qed

lemma packAnswers_messageType:
  "map messageType (snd (packAnswers encR E as msg sz out))
     = map messageType out
         @ replicate (length (snd (packAnswers encR E as msg sz out)) - length out)
             (messageType msg)"
proof (induction as arbitrary: msg sz out)
  case Nil
  show ?case by simp
next
  case (Cons a as)
  let ?over = "msg\<lparr>msgQueries := [], msgAnswers := [encR a]\<rparr>"
  let ?fits = "msg\<lparr>msgAnswers := msgAnswers msg @ [encR a]\<rparr>"
  show ?case
  proof (cases "sz + length (encR a) > MAX_MDNS_MESSAGE_SIZE")
    case True
    let ?p = "packAnswers encR E as ?over (E + length (encR a)) (out @ [msg])"
    have step: "packAnswers encR E (a # as) msg sz out = ?p"
      using True by (simp add: Let_def)
    have len: "Suc (length out) \<le> length (snd ?p)"
      using packAnswers_length[where out="out @ [msg]" and encR=encR and E=E and as=as and msg="?over" and sz="E + length (encR a)"] by simp
    then have r: "messageType msg # replicate (length (snd ?p) - Suc (length out)) (messageType msg)
        = replicate (length (snd ?p) - length out) (messageType msg)"
      by (metis Suc_diff_le diff_Suc_Suc replicate_Suc)
    show ?thesis
      unfolding step using Cons.IH[where msg="?over" and sz="E + length (encR a)" and out="out @ [msg]"] r
      by simp
  next
    case False
    then have step: "packAnswers encR E (a # as) msg sz out
        = packAnswers encR E as ?fits (sz + length (encR a)) out"
      by (simp add: Let_def)
    show ?thesis
      unfolding step using Cons.IH[where msg="?fits" and sz="sz + length (encR a)" and out=out]
      by simp
  qed
qed

lemma broadcastMessages_length: "length (broadcastMessages enc encR qs as) \<ge> 1"
  by (simp add: broadcastMessages_def Let_def)

lemma broadcastMessages_queries:
  "map msgQueries (broadcastMessages enc encR qs as)
     = qs # replicate (length (broadcastMessages enc encR qs as) - 1) []"
  using packAnswers_queries[where encR=encR and as=as and out="[]"]
  by (simp add: broadcastMessages_def Let_def)

lemma broadcastMessages_messageType:
  "map messageType (broadcastMessages enc encR qs as)
     = replicate (length (broadcastMessages enc encR qs as) - 1) TruncatedQuery @ [Query]"
  using packAnswers_messageType[where encR=encR and as=as and out="[]"]
  by (simp add: broadcastMessages_def Let_def)

lemma sendQueries_sent:
  "sent (sendQueries enc encR s)
     = sent s @ broadcastMessages enc encR (flattenedQueries s) (getActiveQueryEarlierAnswers s)"
  by (simp add: sendQueries_def Let_def flattenedQueries_def getActiveQueryEarlierAnswers_def
        comp_def)

text \<open>
  C2, as the code has it. Of the messages one broadcast sends, the first carries all
  the flattened queries of the active query set and every later fragment carries no
  query: the query list of the message is emptied when the first fragment has been
  sent.
\<close>

theorem queries_only_in_first_fragment:
  assumes "sent (sendQueries enc encR s) = sent s @ msgs"
  shows "msgs \<noteq> []
       \<and> map msgQueries msgs = flattenedQueries s # replicate (length msgs - 1) []"
proof -
  from assms have m: "msgs = broadcastMessages enc encR (flattenedQueries s)
      (getActiveQueryEarlierAnswers s)"
    by (simp add: sendQueries_sent)
  have "msgs \<noteq> []"
    using broadcastMessages_length[of enc encR "flattenedQueries s" "getActiveQueryEarlierAnswers s"]
    unfolding m by auto
  then show ?thesis
    unfolding m using broadcastMessages_queries by blast
qed

lemma replicate_record_numeral:
  "replicate (numeral k) (x :: DnsRecord) = x # replicate (pred_numeral k) x"
  by (simp add: numeral_eq_Suc)

lemma sixty_answers_fragments:
  "length (broadcastMessages sampleEncode (encodeTo 600) threeQueries (replicate 60 knownAddress))
     = 30"
  by (simp add: broadcastMessages_def sampleEncode_def encodeTo_def threeQueries_def Let_def
        MAX_MDNS_MESSAGE_SIZE_def replicate_record_numeral)

lemma scannerWithAnswers_flattened:
  "flattenedQueries (scannerWithAnswers n) = threeQueries
   \<and> getActiveQueryEarlierAnswers (scannerWithAnswers n) = replicate n knownAddress
   \<and> sent (scannerWithAnswers n) = []"
  by (simp add: scannerWithAnswers_def flattenedQueries_def getActiveQueryEarlierAnswers_def
        newScanner_def)

theorem queries_only_in_first_fragment_witness:
  "sent (sendQueries sampleEncode (encodeTo 600) (scannerWithAnswers 60))
     = sent (scannerWithAnswers 60)
         @ broadcastMessages sampleEncode (encodeTo 600) threeQueries (replicate 60 knownAddress)
   \<and> broadcastMessages sampleEncode (encodeTo 600) threeQueries (replicate 60 knownAddress) \<noteq> []
   \<and> map msgQueries
         (broadcastMessages sampleEncode (encodeTo 600) threeQueries (replicate 60 knownAddress))
       = threeQueries # replicate 29 []"
proof -
  have h: "sent (sendQueries sampleEncode (encodeTo 600) (scannerWithAnswers 60))
     = sent (scannerWithAnswers 60)
         @ broadcastMessages sampleEncode (encodeTo 600) threeQueries (replicate 60 knownAddress)"
    by (simp add: sendQueries_sent scannerWithAnswers_flattened)
  from queries_only_in_first_fragment[OF h] h show ?thesis
    by (simp add: scannerWithAnswers_flattened sixty_answers_fragments)
qed

text \<open>
  The claim fails on the scenario it names: with three queries and 60 known answers
  encoded to 600 bytes each, 30 datagrams are sent, and only the first of them carries
  the three queries.
\<close>

theorem every_fragment_carries_queries_counterexample:
  "length (sent (sendQueries sampleEncode (encodeTo 600) (scannerWithAnswers 60))) = 30
   \<and> map (\<lambda>m. length (msgQueries m))
        (sent (sendQueries sampleEncode (encodeTo 600) (scannerWithAnswers 60)))
       = 3 # replicate 29 0"
proof -
  have q: "map msgQueries
      (broadcastMessages sampleEncode (encodeTo 600) threeQueries (replicate 60 knownAddress))
     = threeQueries # replicate 29 []"
    using broadcastMessages_queries[of sampleEncode "encodeTo 600" threeQueries
        "replicate 60 knownAddress"]
    by (simp add: sixty_answers_fragments)
  have l: "map length (threeQueries # replicate 29 []) = 3 # replicate 29 0"
    by (simp add: threeQueries_def)
  have "map (\<lambda>m. length (msgQueries m))
      (broadcastMessages sampleEncode (encodeTo 600) threeQueries (replicate 60 knownAddress))
     = map length (threeQueries # replicate 29 [])"
    unfolding q[symmetric] by (simp add: comp_def)
  with l show ?thesis
    by (simp add: sendQueries_sent scannerWithAnswers_flattened sixty_answers_fragments)
qed

subsection \<open>Size and type of the datagrams\<close>

lemma packAnswers_answers:
  "concat (map msgAnswers (snd (packAnswers encR E as msg sz out)
             @ [fst (packAnswers encR E as msg sz out)]))
     = concat (map msgAnswers out) @ msgAnswers msg @ map encR as"
proof (induction as arbitrary: msg sz out)
  case Nil
  show ?case by simp
next
  case (Cons a as)
  show ?case
    using Cons.IH[where msg="msg\<lparr>msgQueries := [], msgAnswers := [encR a]\<rparr>"
        and sz="E + length (encR a)" and out="out @ [msg]"]
      Cons.IH[where msg="msg\<lparr>msgAnswers := msgAnswers msg @ [encR a]\<rparr>"
        and sz="sz + length (encR a)" and out=out]
    by (simp add: Let_def)
qed

lemma packAnswers_stripped:
  assumes "\<forall>m\<in>set out. m\<lparr>msgQueries := [], msgAnswers := []\<rparr> = m0"
    and "msg\<lparr>msgQueries := [], msgAnswers := []\<rparr> = m0"
  shows "\<forall>m\<in>set (snd (packAnswers encR E as msg sz out) @ [fst (packAnswers encR E as msg sz out)]).
           m\<lparr>msgQueries := [], msgAnswers := []\<rparr> = m0"
  using assms
proof (induction as arbitrary: msg sz out)
  case Nil
  then show ?case by simp
next
  case (Cons a as)
  let ?over = "msg\<lparr>msgQueries := [], msgAnswers := [encR a]\<rparr>"
  let ?fits = "msg\<lparr>msgAnswers := msgAnswers msg @ [encR a]\<rparr>"
  show ?case
  proof (cases "sz + length (encR a) > MAX_MDNS_MESSAGE_SIZE")
    case True
    have step: "packAnswers encR E (a # as) msg sz out
        = packAnswers encR E as ?over (E + length (encR a)) (out @ [msg])"
      using True by (simp add: Let_def)
    have o: "\<forall>m\<in>set (out @ [msg]). m\<lparr>msgQueries := [], msgAnswers := []\<rparr> = m0"
      using Cons.prems by simp
    have c: "?over\<lparr>msgQueries := [], msgAnswers := []\<rparr> = m0"
      using Cons.prems(2) by simp
    show ?thesis
      unfolding step by (rule Cons.IH[OF o c])
  next
    case False
    have step: "packAnswers encR E (a # as) msg sz out
        = packAnswers encR E as ?fits (sz + length (encR a)) out"
      using False by (simp add: Let_def)
    have c: "?fits\<lparr>msgQueries := [], msgAnswers := []\<rparr> = m0"
      using Cons.prems(2) by simp
    show ?thesis
      unfolding step by (rule Cons.IH[OF Cons.prems(1) c])
  qed
qed

lemma packAnswers_sizes:
  assumes additive: "\<And>m. length (enc m)
              = length (enc (m\<lparr>msgAnswers := []\<rparr>)) + sum_list (map length (msgAnswers m))"
    and fit: "\<forall>a\<in>set as. E0 + length (encR a) \<le> MAX_MDNS_MESSAGE_SIZE"
    and smaller: "E0 \<le> E"
    and tracked: "sz = E + sum_list (map length (msgAnswers msg))"
    and header: "length (enc (msg\<lparr>msgAnswers := []\<rparr>)) \<le> E"
    and stripped: "length (enc (msg\<lparr>msgQueries := [], msgAnswers := []\<rparr>)) = E0"
    and current: "length (enc msg) \<le> MAX_MDNS_MESSAGE_SIZE"
    and earlier: "\<forall>m\<in>set out. length (enc m) \<le> MAX_MDNS_MESSAGE_SIZE"
  shows "(\<forall>m\<in>set (snd (packAnswers encR E as msg sz out)). length (enc m) \<le> MAX_MDNS_MESSAGE_SIZE)
       \<and> length (enc (fst (packAnswers encR E as msg sz out))) \<le> MAX_MDNS_MESSAGE_SIZE"
  using fit tracked header stripped current earlier
proof (induction as arbitrary: msg sz out)
  case Nil
  then show ?case by simp
next
  case (Cons a as)
  let ?over = "msg\<lparr>msgQueries := [], msgAnswers := [encR a]\<rparr>"
  let ?fits = "msg\<lparr>msgAnswers := msgAnswers msg @ [encR a]\<rparr>"
  have rest_fit: "\<forall>a\<in>set as. E0 + length (encR a) \<le> MAX_MDNS_MESSAGE_SIZE"
    using Cons.prems(1) by simp
  show ?case
  proof (cases "sz + length (encR a) > MAX_MDNS_MESSAGE_SIZE")
    case True
    have step: "packAnswers encR E (a # as) msg sz out
        = packAnswers encR E as ?over (E + length (encR a)) (out @ [msg])"
      using True by (simp add: Let_def)
    have eq: "?over\<lparr>msgAnswers := []\<rparr> = msg\<lparr>msgQueries := [], msgAnswers := []\<rparr>"
      by simp
    have eq2: "?over\<lparr>msgQueries := [], msgAnswers := []\<rparr> = msg\<lparr>msgQueries := [], msgAnswers := []\<rparr>"
      by simp
    have t: "E + length (encR a) = E + sum_list (map length (msgAnswers ?over))"
      by simp
    have h0: "length (enc (?over\<lparr>msgAnswers := []\<rparr>)) = E0"
      unfolding eq by (rule Cons.prems(4))
    have h: "length (enc (?over\<lparr>msgAnswers := []\<rparr>)) \<le> E"
      using h0 smaller by simp
    have s: "length (enc (?over\<lparr>msgQueries := [], msgAnswers := []\<rparr>)) = E0"
      unfolding eq2 by (rule Cons.prems(4))
    have "length (enc ?over) = E0 + length (encR a)"
      using additive[of ?over] h0 by simp
    then have c: "length (enc ?over) \<le> MAX_MDNS_MESSAGE_SIZE"
      using Cons.prems(1) by simp
    have e: "\<forall>m\<in>set (out @ [msg]). length (enc m) \<le> MAX_MDNS_MESSAGE_SIZE"
      using Cons.prems(5,6) by simp
    show ?thesis
      unfolding step by (rule Cons.IH[OF rest_fit t h s c e])
  next
    case False
    have step: "packAnswers encR E (a # as) msg sz out
        = packAnswers encR E as ?fits (sz + length (encR a)) out"
      using False by (simp add: Let_def)
    have t: "sz + length (encR a) = E + sum_list (map length (msgAnswers ?fits))"
      using Cons.prems(2) by simp
    have h: "length (enc (?fits\<lparr>msgAnswers := []\<rparr>)) \<le> E"
      using Cons.prems(3) by simp
    have s: "length (enc (?fits\<lparr>msgQueries := [], msgAnswers := []\<rparr>)) = E0"
      using Cons.prems(4) by simp
    have "length (enc ?fits) = length (enc (?fits\<lparr>msgAnswers := []\<rparr>))
        + sum_list (map length (msgAnswers ?fits))"
      by (rule additive)
    then have "length (enc ?fits) \<le> sz + length (encR a)"
      using h t by linarith
    then have c: "length (enc ?fits) \<le> MAX_MDNS_MESSAGE_SIZE"
      using False by simp
    show ?thesis
      unfolding step by (rule Cons.IH[OF rest_fit t h s c Cons.prems(6)])
  qed
qed

lemma broadcastMessages_answers:
  "concat (map msgAnswers (broadcastMessages enc encR qs as)) = map encR as"
  using packAnswers_answers[where encR=encR and as=as and out="[]"]
  by (simp add: broadcastMessages_def Let_def)

lemma broadcastMessages_stripped:
  assumes "m \<in> set (broadcastMessages enc encR qs as)"
  shows "m\<lparr>messageType := TruncatedQuery, msgQueries := [], msgAnswers := []\<rparr>
     = \<lparr>messageType = TruncatedQuery, transactionId = 0, msgQueries = [],
        msgAnswers = [], authorities = [], additionalRecords = []\<rparr>"
proof -
  let ?init = "\<lparr>messageType = TruncatedQuery, transactionId = 0, msgQueries = qs,
              msgAnswers = [], authorities = [], additionalRecords = []\<rparr>"
  let ?bare = "\<lparr>messageType = TruncatedQuery, transactionId = 0, msgQueries = [],
              msgAnswers = [], authorities = [], additionalRecords = []\<rparr>"
  let ?E = "length (enc ?init)"
  let ?p = "packAnswers encR ?E as ?init ?E []"
  have o: "\<forall>m\<in>set ([] :: DnsMessage list). m\<lparr>msgQueries := [], msgAnswers := []\<rparr> = ?bare"
    by simp
  have c: "?init\<lparr>msgQueries := [], msgAnswers := []\<rparr> = ?bare" by simp
  note all = packAnswers_stripped[where encR=encR and E="?E" and as=as and sz="?E", OF o c]
  from assms have "m \<in> set (snd ?p) \<or> m = (fst ?p)\<lparr>messageType := Query\<rparr>"
    by (auto simp add: broadcastMessages_def Let_def)
  then show ?thesis
  proof
    assume "m \<in> set (snd ?p)"
    with all have a: "m\<lparr>msgQueries := [], msgAnswers := []\<rparr> = ?bare" by simp
    have "m\<lparr>messageType := TruncatedQuery, msgQueries := [], msgAnswers := []\<rparr>
        = (m\<lparr>msgQueries := [], msgAnswers := []\<rparr>)\<lparr>messageType := TruncatedQuery\<rparr>"
      by simp
    then show ?thesis unfolding a by simp
  next
    assume q: "m = (fst ?p)\<lparr>messageType := Query\<rparr>"
    from all have a: "(fst ?p)\<lparr>msgQueries := [], msgAnswers := []\<rparr> = ?bare" by simp
    have "m\<lparr>messageType := TruncatedQuery, msgQueries := [], msgAnswers := []\<rparr>
        = ((fst ?p)\<lparr>msgQueries := [], msgAnswers := []\<rparr>)\<lparr>messageType := TruncatedQuery\<rparr>"
      unfolding q by simp
    then show ?thesis unfolding a by simp
  qed
qed

lemma broadcastMessages_sizes:
  assumes additive: "\<And>m. length (enc m)
              = length (enc (m\<lparr>msgAnswers := []\<rparr>)) + sum_list (map length (msgAnswers m))"
    and noQueries: "\<And>m. length (enc (m\<lparr>msgQueries := []\<rparr>)) \<le> length (enc m)"
    and typeFree: "\<And>m t. length (enc (m\<lparr>messageType := t\<rparr>)) = length (enc m)"
    and emptyFits: "emptyMessageLength enc qs \<le> MAX_MDNS_MESSAGE_SIZE"
    and fit: "\<forall>a\<in>set as. emptyMessageLength enc [] + length (encR a) \<le> MAX_MDNS_MESSAGE_SIZE"
  shows "\<forall>m\<in>set (broadcastMessages enc encR qs as). length (enc m) \<le> MAX_MDNS_MESSAGE_SIZE"
proof -
  let ?init = "\<lparr>messageType = TruncatedQuery, transactionId = 0, msgQueries = qs,
              msgAnswers = [], authorities = [], additionalRecords = []\<rparr>"
  let ?E = "length (enc ?init)"
  let ?bareLen = "emptyMessageLength enc []"
  have E: "emptyMessageLength enc qs = ?E"
    by (simp add: emptyMessageLength_def)
  have smaller: "?bareLen \<le> ?E"
    using noQueries[of ?init] by (simp add: emptyMessageLength_def)
  have t: "?E = ?E + sum_list (map length (msgAnswers ?init))" by simp
  have h: "length (enc (?init\<lparr>msgAnswers := []\<rparr>)) \<le> ?E" by simp
  have s: "length (enc (?init\<lparr>msgQueries := [], msgAnswers := []\<rparr>)) = ?bareLen"
    by (simp add: emptyMessageLength_def)
  have c: "length (enc ?init) \<le> MAX_MDNS_MESSAGE_SIZE"
    using emptyFits unfolding E .
  have e: "\<forall>m\<in>set ([] :: DnsMessage list). length (enc m) \<le> MAX_MDNS_MESSAGE_SIZE" by simp
  note p = packAnswers_sizes[where enc=enc and encR=encR and E="?E" and ?E0.0="?bareLen" and as=as
      and msg="?init" and sz="?E" and out="[]", OF additive fit smaller t h s c e]
  show ?thesis
    using p typeFree by (simp add: broadcastMessages_def Let_def)
qed

lemma broadcastMessages_lower:
  assumes additive: "\<And>m. length (enc m)
              = length (enc (m\<lparr>msgAnswers := []\<rparr>)) + sum_list (map length (msgAnswers m))"
    and noQueries: "\<And>m. length (enc (m\<lparr>msgQueries := []\<rparr>)) \<le> length (enc m)"
    and typeFree: "\<And>m t. length (enc (m\<lparr>messageType := t\<rparr>)) = length (enc m)"
    and m: "m \<in> set (broadcastMessages enc encR qs as)"
  shows "emptyMessageLength enc [] + sum_list (map length (msgAnswers m)) \<le> length (enc m)"
proof -
  let ?bare = "\<lparr>messageType = TruncatedQuery, transactionId = 0, msgQueries = [],
              msgAnswers = [], authorities = [], additionalRecords = []\<rparr>"
  have "(m\<lparr>msgAnswers := []\<rparr>)\<lparr>msgQueries := []\<rparr>
      = (m\<lparr>messageType := TruncatedQuery, msgQueries := [], msgAnswers := []\<rparr>)
          \<lparr>messageType := messageType m\<rparr>"
    by simp
  also have "\<dots> = ?bare\<lparr>messageType := messageType m\<rparr>"
    unfolding broadcastMessages_stripped[OF m] ..
  finally have "length (enc ((m\<lparr>msgAnswers := []\<rparr>)\<lparr>msgQueries := []\<rparr>)) = length (enc ?bare)"
    using typeFree[where m="?bare" and t="messageType m"] by simp
  then have "emptyMessageLength enc [] \<le> length (enc (m\<lparr>msgAnswers := []\<rparr>))"
    using noQueries[of "m\<lparr>msgAnswers := []\<rparr>"] by (simp add: emptyMessageLength_def)
  then show ?thesis
    using additive[of m] by linarith
qed

lemma broadcastMessages_first:
  assumes additive: "\<And>m. length (enc m)
              = length (enc (m\<lparr>msgAnswers := []\<rparr>)) + sum_list (map length (msgAnswers m))"
    and typeFree: "\<And>m t. length (enc (m\<lparr>messageType := t\<rparr>)) = length (enc m)"
  shows "\<exists>m\<in>set (broadcastMessages enc encR qs as). emptyMessageLength enc qs \<le> length (enc m)"
proof -
  let ?msgs = "broadcastMessages enc encR qs as"
  let ?init = "\<lparr>messageType = TruncatedQuery, transactionId = 0, msgQueries = qs,
              msgAnswers = [], authorities = [], additionalRecords = []\<rparr>"
  have ne: "?msgs \<noteq> []"
    using broadcastMessages_length[of enc encR qs as] by auto
  then have mem: "hd ?msgs \<in> set ?msgs" by simp
  have "map msgQueries ?msgs = qs # replicate (length ?msgs - 1) []"
    by (rule broadcastMessages_queries)
  with ne have q: "msgQueries (hd ?msgs) = qs"
    by (cases ?msgs) simp_all
  have "(hd ?msgs)\<lparr>msgAnswers := []\<rparr>
      = ((hd ?msgs)\<lparr>messageType := TruncatedQuery, msgQueries := [], msgAnswers := []\<rparr>)
          \<lparr>messageType := messageType (hd ?msgs), msgQueries := msgQueries (hd ?msgs)\<rparr>"
    by simp
  also have "\<dots> = ?init\<lparr>messageType := messageType (hd ?msgs)\<rparr>"
    unfolding broadcastMessages_stripped[OF mem] q by simp
  finally have "length (enc ((hd ?msgs)\<lparr>msgAnswers := []\<rparr>)) = length (enc ?init)"
    using typeFree[where m="?init" and t="messageType (hd ?msgs)"] by simp
  then have "emptyMessageLength enc qs \<le> length (enc (hd ?msgs))"
    using additive[of "hd ?msgs"] by (simp add: emptyMessageLength_def)
  with mem show ?thesis by blast
qed

lemma broadcastMessages_bound_iff:
  assumes additive: "\<And>m. length (enc m)
              = length (enc (m\<lparr>msgAnswers := []\<rparr>)) + sum_list (map length (msgAnswers m))"
    and noQueries: "\<And>m. length (enc (m\<lparr>msgQueries := []\<rparr>)) \<le> length (enc m)"
    and typeFree: "\<And>m t. length (enc (m\<lparr>messageType := t\<rparr>)) = length (enc m)"
  shows "(\<forall>m\<in>set (broadcastMessages enc encR qs as). length (enc m) \<le> MAX_MDNS_MESSAGE_SIZE)
     \<longleftrightarrow> (emptyMessageLength enc qs \<le> MAX_MDNS_MESSAGE_SIZE
          \<and> (\<forall>a\<in>set as. emptyMessageLength enc [] + length (encR a) \<le> MAX_MDNS_MESSAGE_SIZE))"
proof
  assume bound: "\<forall>m\<in>set (broadcastMessages enc encR qs as). length (enc m) \<le> MAX_MDNS_MESSAGE_SIZE"
  from broadcastMessages_first[where enc=enc and encR=encR and qs=qs and as=as, OF additive typeFree]
  obtain m1 where m1: "m1 \<in> set (broadcastMessages enc encR qs as)"
    and l1: "emptyMessageLength enc qs \<le> length (enc m1)"
    by blast
  from bound m1 have "length (enc m1) \<le> MAX_MDNS_MESSAGE_SIZE"
    by (rule bspec)
  with l1 have e: "emptyMessageLength enc qs \<le> MAX_MDNS_MESSAGE_SIZE"
    by (rule order_trans)
  have "\<forall>a\<in>set as. emptyMessageLength enc [] + length (encR a) \<le> MAX_MDNS_MESSAGE_SIZE"
  proof
    fix a assume "a \<in> set as"
    then have "encR a \<in> set (concat (map msgAnswers (broadcastMessages enc encR qs as)))"
      by (simp add: broadcastMessages_answers)
    then obtain m where m: "m \<in> set (broadcastMessages enc encR qs as)"
      and a: "encR a \<in> set (msgAnswers m)"
      by auto
    from a have "length (encR a) \<le> sum_list (map length (msgAnswers m))"
      by (simp add: member_le_sum_list)
    moreover have "emptyMessageLength enc [] + sum_list (map length (msgAnswers m)) \<le> length (enc m)"
      by (rule broadcastMessages_lower[OF additive noQueries typeFree m])
    moreover have "length (enc m) \<le> MAX_MDNS_MESSAGE_SIZE"
      using bound m by (rule bspec)
    ultimately show "emptyMessageLength enc [] + length (encR a) \<le> MAX_MDNS_MESSAGE_SIZE"
      by linarith
  qed
  with e show "emptyMessageLength enc qs \<le> MAX_MDNS_MESSAGE_SIZE
          \<and> (\<forall>a\<in>set as. emptyMessageLength enc [] + length (encR a) \<le> MAX_MDNS_MESSAGE_SIZE)"
    by blast
next
  assume fits: "emptyMessageLength enc qs \<le> MAX_MDNS_MESSAGE_SIZE
          \<and> (\<forall>a\<in>set as. emptyMessageLength enc [] + length (encR a) \<le> MAX_MDNS_MESSAGE_SIZE)"
  show "\<forall>m\<in>set (broadcastMessages enc encR qs as). length (enc m) \<le> MAX_MDNS_MESSAGE_SIZE"
    by (rule broadcastMessages_sizes[OF additive noQueries typeFree fits[THEN conjunct1]
          fits[THEN conjunct2]])
qed

lemma broadcastMessages_carrier:
  assumes additive: "\<And>m. length (enc m)
              = length (enc (m\<lparr>msgAnswers := []\<rparr>)) + sum_list (map length (msgAnswers m))"
    and noQueries: "\<And>m. length (enc (m\<lparr>msgQueries := []\<rparr>)) \<le> length (enc m)"
    and typeFree: "\<And>m t. length (enc (m\<lparr>messageType := t\<rparr>)) = length (enc m)"
  shows "\<forall>m\<in>set (broadcastMessages enc encR qs as). \<forall>x\<in>set (msgAnswers m).
           emptyMessageLength enc [] + length x \<le> length (enc m)"
proof (intro ballI)
  fix m x
  assume m: "m \<in> set (broadcastMessages enc encR qs as)" and x: "x \<in> set (msgAnswers m)"
  from x have "length x \<le> sum_list (map length (msgAnswers m))"
    by (simp add: member_le_sum_list)
  moreover have "emptyMessageLength enc [] + sum_list (map length (msgAnswers m)) \<le> length (enc m)"
    by (rule broadcastMessages_lower[OF additive noQueries typeFree m])
  ultimately show "emptyMessageLength enc [] + length x \<le> length (enc m)"
    by linarith
qed

text \<open>
  C7, as the code has it. Of the messages one broadcast sends, all but the last carry
  the message type \<^verbatim>\<open>TruncatedQuery\<close> and the last carries \<^verbatim>\<open>Query\<close>, and together
  they carry every known answer, in order. Let the length of an encoded message be the
  length of the message without its answers plus the lengths of its encoded answers,
  let it not grow when the queries are dropped, and let it not depend on the message
  type. Then no datagram exceeds \<^verbatim>\<open>MAX_MDNS_MESSAGE_SIZE\<close> if and only if the message
  with all queries and no answer fits and every known answer fits into a message that
  carries no query. The datagram that carries an answer is at least as long as the
  message without queries and answers plus that answer, so a known answer that does
  not fit into a message without queries is sent all the same, in a datagram above the
  limit.
\<close>

theorem datagram_bound_and_types:
  assumes "sent (sendQueries enc encR s) = sent s @ msgs"
  shows "map messageType msgs = replicate (length msgs - 1) TruncatedQuery @ [Query]
       \<and> concat (map msgAnswers msgs) = map encR (getActiveQueryEarlierAnswers s)
       \<and> ((\<forall>m. length (enc m)
                 = length (enc (m\<lparr>msgAnswers := []\<rparr>)) + sum_list (map length (msgAnswers m)))
            \<and> (\<forall>m. length (enc (m\<lparr>msgQueries := []\<rparr>)) \<le> length (enc m))
            \<and> (\<forall>m t. length (enc (m\<lparr>messageType := t\<rparr>)) = length (enc m))
          \<longrightarrow> ((\<forall>m\<in>set msgs. length (enc m) \<le> MAX_MDNS_MESSAGE_SIZE)
                \<longleftrightarrow> (emptyMessageLength enc (flattenedQueries s) \<le> MAX_MDNS_MESSAGE_SIZE
                     \<and> (\<forall>a\<in>set (getActiveQueryEarlierAnswers s).
                           emptyMessageLength enc [] + length (encR a)
                             \<le> MAX_MDNS_MESSAGE_SIZE)))
              \<and> (\<forall>m\<in>set msgs. \<forall>x\<in>set (msgAnswers m).
                    emptyMessageLength enc [] + length x \<le> length (enc m)))"
proof -
  from assms have m: "msgs = broadcastMessages enc encR (flattenedQueries s)
      (getActiveQueryEarlierAnswers s)"
    by (simp add: sendQueries_sent)
  have types: "map messageType msgs = replicate (length msgs - 1) TruncatedQuery @ [Query]"
    unfolding m by (rule broadcastMessages_messageType)
  have all: "concat (map msgAnswers msgs) = map encR (getActiveQueryEarlierAnswers s)"
    unfolding m by (rule broadcastMessages_answers)
  have sizes: "(\<forall>m. length (enc m)
                 = length (enc (m\<lparr>msgAnswers := []\<rparr>)) + sum_list (map length (msgAnswers m)))
            \<and> (\<forall>m. length (enc (m\<lparr>msgQueries := []\<rparr>)) \<le> length (enc m))
            \<and> (\<forall>m t. length (enc (m\<lparr>messageType := t\<rparr>)) = length (enc m))
          \<longrightarrow> ((\<forall>m\<in>set msgs. length (enc m) \<le> MAX_MDNS_MESSAGE_SIZE)
                \<longleftrightarrow> (emptyMessageLength enc (flattenedQueries s) \<le> MAX_MDNS_MESSAGE_SIZE
                     \<and> (\<forall>a\<in>set (getActiveQueryEarlierAnswers s).
                           emptyMessageLength enc [] + length (encR a)
                             \<le> MAX_MDNS_MESSAGE_SIZE)))
              \<and> (\<forall>m\<in>set msgs. \<forall>x\<in>set (msgAnswers m).
                    emptyMessageLength enc [] + length x \<le> length (enc m))"
  proof
    assume a: "(\<forall>m. length (enc m)
                 = length (enc (m\<lparr>msgAnswers := []\<rparr>)) + sum_list (map length (msgAnswers m)))
            \<and> (\<forall>m. length (enc (m\<lparr>msgQueries := []\<rparr>)) \<le> length (enc m))
            \<and> (\<forall>m t. length (enc (m\<lparr>messageType := t\<rparr>)) = length (enc m))"
    note additive = a[THEN conjunct1, rule_format]
      and noQueries = a[THEN conjunct2, THEN conjunct1, rule_format]
      and typeFree = a[THEN conjunct2, THEN conjunct2, rule_format]
    have bound: "(\<forall>m\<in>set msgs. length (enc m) \<le> MAX_MDNS_MESSAGE_SIZE)
                \<longleftrightarrow> (emptyMessageLength enc (flattenedQueries s) \<le> MAX_MDNS_MESSAGE_SIZE
                     \<and> (\<forall>a\<in>set (getActiveQueryEarlierAnswers s).
                           emptyMessageLength enc [] + length (encR a)
                             \<le> MAX_MDNS_MESSAGE_SIZE))"
      unfolding m
      by (rule broadcastMessages_bound_iff[OF additive noQueries typeFree])
    have carrier: "\<forall>m\<in>set msgs. \<forall>x\<in>set (msgAnswers m).
                    emptyMessageLength enc [] + length x \<le> length (enc m)"
      unfolding m
      by (rule broadcastMessages_carrier[OF additive noQueries typeFree])
    show "((\<forall>m\<in>set msgs. length (enc m) \<le> MAX_MDNS_MESSAGE_SIZE)
                \<longleftrightarrow> (emptyMessageLength enc (flattenedQueries s) \<le> MAX_MDNS_MESSAGE_SIZE
                     \<and> (\<forall>a\<in>set (getActiveQueryEarlierAnswers s).
                           emptyMessageLength enc [] + length (encR a)
                             \<le> MAX_MDNS_MESSAGE_SIZE)))
              \<and> (\<forall>m\<in>set msgs. \<forall>x\<in>set (msgAnswers m).
                    emptyMessageLength enc [] + length x \<le> length (enc m))"
      by (rule conjI[OF bound carrier])
  qed
  show ?thesis
    by (rule conjI[OF types conjI[OF all sizes]])
qed

lemma sampleEncode_length:
  "length (sampleEncode m) = 12 + 40 * length (msgQueries m) + sum_list (map length (msgAnswers m))"
  by (simp add: sampleEncode_def length_concat)

lemma one_answer_fragments:
  "map (\<lambda>m. (messageType m, length (msgQueries m), length (sampleEncode m)))
     (broadcastMessages sampleEncode (encodeTo 1400) threeQueries (replicate 1 knownAddress))
   = [(TruncatedQuery, 3, 132), (Query, 0, 1412)]"
  by (simp add: broadcastMessages_def sampleEncode_length encodeTo_def threeQueries_def Let_def
        MAX_MDNS_MESSAGE_SIZE_def)

theorem datagram_bound_and_types_witness:
  "sent (sendQueries sampleEncode (encodeTo 1400) (scannerWithAnswers 1))
     = sent (scannerWithAnswers 1)
         @ broadcastMessages sampleEncode (encodeTo 1400) threeQueries (replicate 1 knownAddress)
   \<and> (\<forall>m. length (sampleEncode m)
            = length (sampleEncode (m\<lparr>msgAnswers := []\<rparr>)) + sum_list (map length (msgAnswers m)))
   \<and> (\<forall>m. length (sampleEncode (m\<lparr>msgQueries := []\<rparr>)) \<le> length (sampleEncode m))
   \<and> (\<forall>m t. length (sampleEncode (m\<lparr>messageType := t\<rparr>)) = length (sampleEncode m))
   \<and> emptyMessageLength sampleEncode threeQueries = 132
   \<and> emptyMessageLength sampleEncode [] = 12
   \<and> map messageType
        (broadcastMessages sampleEncode (encodeTo 1400) threeQueries (replicate 1 knownAddress))
       = [TruncatedQuery, Query]
   \<and> list_all (\<lambda>m. length (sampleEncode m) \<le> MAX_MDNS_MESSAGE_SIZE)
        (broadcastMessages sampleEncode (encodeTo 1400) threeQueries (replicate 1 knownAddress))
   \<and> \<not> list_all (\<lambda>m. length (sampleEncode m) \<le> MAX_MDNS_MESSAGE_SIZE)
        (broadcastMessages sampleEncode (encodeTo 2000) threeQueries (replicate 1 knownAddress))"
proof -
  let ?fits = "broadcastMessages sampleEncode (encodeTo 1400) threeQueries (replicate 1 knownAddress)"
  let ?over = "broadcastMessages sampleEncode (encodeTo 2000) threeQueries (replicate 1 knownAddress)"
  have h: "sent (sendQueries sampleEncode (encodeTo 1400) (scannerWithAnswers 1))
     = sent (scannerWithAnswers 1) @ ?fits"
    by (simp add: sendQueries_sent scannerWithAnswers_flattened)
  have h': "sent (sendQueries sampleEncode (encodeTo 2000) (scannerWithAnswers 1))
     = sent (scannerWithAnswers 1) @ ?over"
    by (simp add: sendQueries_sent scannerWithAnswers_flattened)
  have a1: "\<forall>m. length (sampleEncode m)
            = length (sampleEncode (m\<lparr>msgAnswers := []\<rparr>)) + sum_list (map length (msgAnswers m))"
    by (simp add: sampleEncode_length)
  have a2: "\<forall>m. length (sampleEncode (m\<lparr>msgQueries := []\<rparr>)) \<le> length (sampleEncode m)"
    by (simp add: sampleEncode_length)
  have a3: "\<forall>m t. length (sampleEncode (m\<lparr>messageType := t\<rparr>)) = length (sampleEncode m)"
    by (simp add: sampleEncode_length)
  have e: "emptyMessageLength sampleEncode threeQueries = 132"
    by (simp add: emptyMessageLength_def sampleEncode_length threeQueries_def)
  have e0: "emptyMessageLength sampleEncode [] = 12"
    by (simp add: emptyMessageLength_def sampleEncode_length)
  have fq: "flattenedQueries (scannerWithAnswers 1) = threeQueries"
    and fa: "getActiveQueryEarlierAnswers (scannerWithAnswers 1) = replicate 1 knownAddress"
    using scannerWithAnswers_flattened[of 1] by simp_all
  have fit: "emptyMessageLength sampleEncode (flattenedQueries (scannerWithAnswers 1))
        \<le> MAX_MDNS_MESSAGE_SIZE
      \<and> (\<forall>a\<in>set (getActiveQueryEarlierAnswers (scannerWithAnswers 1)).
            emptyMessageLength sampleEncode [] + length (encodeTo 1400 a)
              \<le> MAX_MDNS_MESSAGE_SIZE)"
    unfolding fq fa e e0 by (simp add: encodeTo_def MAX_MDNS_MESSAGE_SIZE_def)
  have nofit: "\<not> (emptyMessageLength sampleEncode (flattenedQueries (scannerWithAnswers 1))
        \<le> MAX_MDNS_MESSAGE_SIZE
      \<and> (\<forall>a\<in>set (getActiveQueryEarlierAnswers (scannerWithAnswers 1)).
            emptyMessageLength sampleEncode [] + length (encodeTo 2000 a)
              \<le> MAX_MDNS_MESSAGE_SIZE))"
    unfolding fq fa e e0 by (simp add: encodeTo_def MAX_MDNS_MESSAGE_SIZE_def)
  have types: "map messageType ?fits = [TruncatedQuery, Query]"
    using arg_cong[OF one_answer_fragments, of "map fst"] by (simp add: comp_def)
  note codec = conjI[OF a1 conjI[OF a2 a3]]
  note iff1400 = mp[OF datagram_bound_and_types[OF h, THEN conjunct2, THEN conjunct2] codec,
      THEN conjunct1]
  note iff2000 = mp[OF datagram_bound_and_types[OF h', THEN conjunct2, THEN conjunct2] codec,
      THEN conjunct1]
  have within: "list_all (\<lambda>m. length (sampleEncode m) \<le> MAX_MDNS_MESSAGE_SIZE) ?fits"
    unfolding list_all_iff by (rule iffD2[OF iff1400 fit])
  have above: "\<not> list_all (\<lambda>m. length (sampleEncode m) \<le> MAX_MDNS_MESSAGE_SIZE) ?over"
    unfolding list_all_iff iff2000 by (rule nofit)
  show ?thesis
    by (intro conjI) (rule h a1 a2 a3 e e0 types within above)+
qed

text \<open>
  The bound of the claim fails for an answer that does not fit into a datagram: a
  known answer encoded to 2000 bytes is sent in a datagram of 2012 bytes, after an
  empty \<^verbatim>\<open>TruncatedQuery\<close> message.
\<close>

theorem datagram_bound_counterexample:
  "map (\<lambda>m. (messageType m, length (sampleEncode m)))
     (sent (sendQueries sampleEncode (encodeTo 2000) (scannerWithAnswers 1)))
   = [(TruncatedQuery, 132), (Query, 2012)]
   \<and> MAX_MDNS_MESSAGE_SIZE < 2012"
  by (simp add: sendQueries_sent scannerWithAnswers_flattened broadcastMessages_def
        sampleEncode_length encodeTo_def threeQueries_def Let_def MAX_MDNS_MESSAGE_SIZE_def)

subsection \<open>Lifespan of an operational address\<close>

text \<open>
  C1. The operational SRV handler stores, for an address record with a TTL above 0, an
  entry whose \<^verbatim>\<open>discoveredAt\<close> is the current time plus the TTL and whose \<^verbatim>\<open>ttl\<close> is
  left \<^verbatim>\<open>undefined\<close>; the expiry sweep then compares \<^verbatim>\<open>now\<close> with \<^verbatim>\<open>NaN\<close> and
  deletes the address. Here a device is discovered at time 1000000 with a TTL of 120
  seconds: the sweep 60 seconds later removes its address, and with it the device.
\<close>

theorem operational_address_lifespan_lost:
  "fst (handleOperationalRecords 1000000 (newScanner False) [operationalSrv, knownAddress] []
          ''eth0'')
   \<and> map (\<lambda>kv. (devDiscoveredAt (snd kv), devTtl (snd kv),
              map (\<lambda>a. (fst a, discoveredAt (snd a), addrTtl (snd a))) (addresses (snd kv))))
     (operationalDeviceRecords
        (snd (handleOperationalRecords 1000000 (newScanner False) [operationalSrv, knownAddress] []
                ''eth0'')))
   = [(1000000, 120000, [(''fd12::1'', Some 1120000, None)])]
   \<and> operationalDeviceRecords
        (expire 1060000
           (snd (handleOperationalRecords 1000000 (newScanner False)
                   [operationalSrv, knownAddress] [] ''eth0'')))
     = []"
  by code_simp

subsection \<open>The waiter of continuous discovery\<close>

text \<open>
  C4. Continuous discovery is started at time 0 with a timeout of 10 seconds, so its
  end time is 10000. The first turn of the loop, at time 0, has 10 seconds left and
  awaits a waiter; that waiter is registered with no timeout, hence has no timer: the
  remaining time is computed into an inner variable, and the variable handed to
  \<^verbatim>\<open>registerWaiterPromise\<close> is never assigned.
\<close>

theorem continuous_waiter_without_timer:
  "discoveryEndTimeOf 0 (Some 10) = Some 10000
   \<and> snd (continuousDiscoveryTurn hasColon
            (startContinuousDiscovery (newScanner True) anyCommissioningDevice)
            anyCommissioningDevice [] (Some 10000) 0)
       = AwaitWaiter
           (registerWaiterPromise
              (startContinuousDiscovery (newScanner True) anyCommissioningDevice)
              ''_CM._sub._matterc._udp.local'' None False)
   \<and> recordWaiters
        (registerWaiterPromise
           (startContinuousDiscovery (newScanner True) anyCommissioningDevice)
           ''_CM._sub._matterc._udp.local'' None False)
       = [(''_CM._sub._matterc._udp.local'', \<lparr>timer = None, resolveOnUpdatedRecords = False\<rparr>)]"
  by code_simp

subsection \<open>Discovery calls on a closed scanner\<close>

text \<open>
  C5. On a scanner that has been closed, \<^verbatim>\<open>findOperationalDevice\<close> throws
  \<^verbatim>\<open>ImplementationError\<close>, but \<^verbatim>\<open>findCommissionableDevices\<close> does not: it never
  reads the closing flag. With an empty cache it registers a waiter, installs its
  queries, starts the query timer and awaits; with a cached device that has an address
  it returns the device.
\<close>

theorem closed_scanner_discovery:
  "closing (close (newScanner True))
   \<and> findOperationalDevice hasColon (close (newScanner True))
        ''0102030405060708-00000000AAAA0001._matter._tcp.local'' (Some 5) False
       = Inl (ImplementationError
                ''Cannot discover operational device because scanner is closing.'')
   \<and> map_sum id fst
        (findCommissionableDevices hasColon (close (newScanner True)) anyCommissioningDevice
           None False)
       = Inr (Awaiting ''_CM._sub._matterc._udp.local'')
   \<and> map_sum id (\<lambda>r. (recordWaiters (snd r), queryTimer (snd r)))
        (findCommissionableDevices hasColon (close (newScanner True)) anyCommissioningDevice
           None False)
       = Inr ([(''_CM._sub._matterc._udp.local'',
                \<lparr>timer = Some 5000, resolveOnUpdatedRecords = True\<rparr>)], Some 0)
   \<and> closing (close scannerWithDevices)
   \<and> map_sum id fst
        (findCommissionableDevices hasColon (close scannerWithDevices) anyCommissioningDevice
           None False)
       = Inr (Returned [toCommissionableDevice hasColon (cachedDevice ''B2'' 2)])"
  by code_simp

subsection \<open>The query for any commissioning device\<close>

lemma toCommissionableDevice_prop:
  "k \<noteq> ''expires'' \<Longrightarrow> getProp (cdProps (toCommissionableDevice f r)) k = getProp (cprops r) k"
  by (simp add: toCommissionableDevice_def getProp_def)

lemma found_by_identifier:
  assumes "r \<in> set (map snd (commissionableDeviceRecords s))" and "identifierFilter identifier r"
  shows "toCommissionableDevice f r \<in> set (getCommissionableDeviceRecords f s identifier)"
  using assms by (auto simp add: getCommissionableDeviceRecords_def Let_def)

lemma identifierFilter_any:
  "identifierFilter anyCommissioningDevice
     = (\<lambda>r. getProp (cprops r) ''CM'' = Some (Num 1) \<or> getProp (cprops r) ''CM'' = Some (Num 2))"
  by (rule ext) (simp add: identifierFilter_def anyCommissioningDevice_def Let_def)

text \<open>
  C10. A query with the empty identifier returns exactly the cached records whose
  \<^verbatim>\<open>CM\<close> is 1 or 2, in the order of the cache; no device it returns has \<^verbatim>\<open>CM = 0\<close>.
  A cached record with \<^verbatim>\<open>CM = 0\<close> is returned by a query for its own instance id, long
  discriminator, short discriminator, vendor and product, vendor, device type or
  product.
\<close>

theorem any_commissioning_device_query:
  "getCommissionableDeviceRecords f s anyCommissioningDevice
     = map (toCommissionableDevice f)
         (filter (\<lambda>r. getProp (cprops r) ''CM'' = Some (Num 1) \<or> getProp (cprops r) ''CM'' = Some (Num 2))
            (map snd (commissionableDeviceRecords s)))
   \<and> (\<forall>d\<in>set (getCommissionableDeviceRecords f s anyCommissioningDevice).
         getProp (cdProps d) ''CM'' \<noteq> Some (Num 0))
   \<and> (\<forall>r\<in>set (map snd (commissionableDeviceRecords s)).
         getProp (cprops r) ''CM'' = Some (Num 0) \<longrightarrow>
           (\<forall>i. getProp (cprops r) ''instanceId'' = Some (Str i) \<longrightarrow>
              toCommissionableDevice f r \<in> set (getCommissionableDeviceRecords f s
                (anyCommissioningDevice\<lparr>instanceId := Some i\<rparr>)))
         \<and> (\<forall>d. getProp (cprops r) ''D'' = Some (Num d) \<longrightarrow>
              toCommissionableDevice f r \<in> set (getCommissionableDeviceRecords f s
                (anyCommissioningDevice\<lparr>longDiscriminator := Some d\<rparr>)))
         \<and> (\<forall>d. getProp (cprops r) ''SD'' = Some (Num d) \<longrightarrow>
              toCommissionableDevice f r \<in> set (getCommissionableDeviceRecords f s
                (anyCommissioningDevice\<lparr>shortDiscriminator := Some d\<rparr>)))
         \<and> (\<forall>v p. getProp (cprops r) ''V'' = Some (Num v) \<and> getProp (cprops r) ''P'' = Some (Num p) \<longrightarrow>
              toCommissionableDevice f r \<in> set (getCommissionableDeviceRecords f s
                (anyCommissioningDevice\<lparr>vendorId := Some v, productId := Some p\<rparr>)))
         \<and> (\<forall>v. getProp (cprops r) ''V'' = Some (Num v) \<longrightarrow>
              toCommissionableDevice f r \<in> set (getCommissionableDeviceRecords f s
                (anyCommissioningDevice\<lparr>vendorId := Some v\<rparr>)))
         \<and> (\<forall>t. getProp (cprops r) ''DT'' = Some (Num t) \<longrightarrow>
              toCommissionableDevice f r \<in> set (getCommissionableDeviceRecords f s
                (anyCommissioningDevice\<lparr>deviceType := Some t\<rparr>)))
         \<and> (\<forall>p. getProp (cprops r) ''P'' = Some (Num p) \<longrightarrow>
              toCommissionableDevice f r \<in> set (getCommissionableDeviceRecords f s
                (anyCommissioningDevice\<lparr>productId := Some p\<rparr>))))"
proof -
  have exact: "getCommissionableDeviceRecords f s anyCommissioningDevice
     = map (toCommissionableDevice f)
         (filter (\<lambda>r. getProp (cprops r) ''CM'' = Some (Num 1) \<or> getProp (cprops r) ''CM'' = Some (Num 2))
            (map snd (commissionableDeviceRecords s)))"
    by (simp add: getCommissionableDeviceRecords_def identifierFilter_any Let_def)
  have never: "\<forall>d\<in>set (getCommissionableDeviceRecords f s anyCommissioningDevice).
         getProp (cdProps d) ''CM'' \<noteq> Some (Num 0)"
    unfolding exact by (auto simp add: toCommissionableDevice_prop)
  have other: "\<forall>r\<in>set (map snd (commissionableDeviceRecords s)).
         getProp (cprops r) ''CM'' = Some (Num 0) \<longrightarrow>
           (\<forall>i. getProp (cprops r) ''instanceId'' = Some (Str i) \<longrightarrow>
              toCommissionableDevice f r \<in> set (getCommissionableDeviceRecords f s
                (anyCommissioningDevice\<lparr>instanceId := Some i\<rparr>)))
         \<and> (\<forall>d. getProp (cprops r) ''D'' = Some (Num d) \<longrightarrow>
              toCommissionableDevice f r \<in> set (getCommissionableDeviceRecords f s
                (anyCommissioningDevice\<lparr>longDiscriminator := Some d\<rparr>)))
         \<and> (\<forall>d. getProp (cprops r) ''SD'' = Some (Num d) \<longrightarrow>
              toCommissionableDevice f r \<in> set (getCommissionableDeviceRecords f s
                (anyCommissioningDevice\<lparr>shortDiscriminator := Some d\<rparr>)))
         \<and> (\<forall>v p. getProp (cprops r) ''V'' = Some (Num v) \<and> getProp (cprops r) ''P'' = Some (Num p) \<longrightarrow>
              toCommissionableDevice f r \<in> set (getCommissionableDeviceRecords f s
                (anyCommissioningDevice\<lparr>vendorId := Some v, productId := Some p\<rparr>)))
         \<and> (\<forall>v. getProp (cprops r) ''V'' = Some (Num v) \<longrightarrow>
              toCommissionableDevice f r \<in> set (getCommissionableDeviceRecords f s
                (anyCommissioningDevice\<lparr>vendorId := Some v\<rparr>)))
         \<and> (\<forall>t. getProp (cprops r) ''DT'' = Some (Num t) \<longrightarrow>
              toCommissionableDevice f r \<in> set (getCommissionableDeviceRecords f s
                (anyCommissioningDevice\<lparr>deviceType := Some t\<rparr>)))
         \<and> (\<forall>p. getProp (cprops r) ''P'' = Some (Num p) \<longrightarrow>
              toCommissionableDevice f r \<in> set (getCommissionableDeviceRecords f s
                (anyCommissioningDevice\<lparr>productId := Some p\<rparr>)))"
  proof (intro ballI impI conjI allI)
    fix r i
    assume r: "r \<in> set (map snd (commissionableDeviceRecords s))"
      and "getProp (cprops r) ''instanceId'' = Some (Str i)"
    then show "toCommissionableDevice f r \<in> set (getCommissionableDeviceRecords f s
        (anyCommissioningDevice\<lparr>instanceId := Some i\<rparr>))"
      by (intro found_by_identifier) (simp_all add: identifierFilter_def anyCommissioningDevice_def)
  next
    fix r d
    assume r: "r \<in> set (map snd (commissionableDeviceRecords s))"
      and "getProp (cprops r) ''D'' = Some (Num d)"
    then show "toCommissionableDevice f r \<in> set (getCommissionableDeviceRecords f s
        (anyCommissioningDevice\<lparr>longDiscriminator := Some d\<rparr>))"
      by (intro found_by_identifier) (simp_all add: identifierFilter_def anyCommissioningDevice_def)
  next
    fix r d
    assume r: "r \<in> set (map snd (commissionableDeviceRecords s))"
      and "getProp (cprops r) ''SD'' = Some (Num d)"
    then show "toCommissionableDevice f r \<in> set (getCommissionableDeviceRecords f s
        (anyCommissioningDevice\<lparr>shortDiscriminator := Some d\<rparr>))"
      by (intro found_by_identifier) (simp_all add: identifierFilter_def anyCommissioningDevice_def)
  next
    fix r v p
    assume r: "r \<in> set (map snd (commissionableDeviceRecords s))"
      and "getProp (cprops r) ''V'' = Some (Num v) \<and> getProp (cprops r) ''P'' = Some (Num p)"
    then show "toCommissionableDevice f r \<in> set (getCommissionableDeviceRecords f s
        (anyCommissioningDevice\<lparr>vendorId := Some v, productId := Some p\<rparr>))"
      by (intro found_by_identifier) (simp_all add: identifierFilter_def anyCommissioningDevice_def)
  next
    fix r v
    assume r: "r \<in> set (map snd (commissionableDeviceRecords s))"
      and "getProp (cprops r) ''V'' = Some (Num v)"
    then show "toCommissionableDevice f r \<in> set (getCommissionableDeviceRecords f s
        (anyCommissioningDevice\<lparr>vendorId := Some v\<rparr>))"
      by (intro found_by_identifier) (simp_all add: identifierFilter_def anyCommissioningDevice_def)
  next
    fix r t
    assume r: "r \<in> set (map snd (commissionableDeviceRecords s))"
      and "getProp (cprops r) ''DT'' = Some (Num t)"
    then show "toCommissionableDevice f r \<in> set (getCommissionableDeviceRecords f s
        (anyCommissioningDevice\<lparr>deviceType := Some t\<rparr>))"
      by (intro found_by_identifier) (simp_all add: identifierFilter_def anyCommissioningDevice_def)
  next
    fix r p
    assume r: "r \<in> set (map snd (commissionableDeviceRecords s))"
      and "getProp (cprops r) ''P'' = Some (Num p)"
    then show "toCommissionableDevice f r \<in> set (getCommissionableDeviceRecords f s
        (anyCommissioningDevice\<lparr>productId := Some p\<rparr>))"
      by (intro found_by_identifier) (simp_all add: identifierFilter_def anyCommissioningDevice_def)
  qed
  from exact never other show ?thesis by blast
qed

theorem any_commissioning_device_query_witness:
  "cachedDevice ''A1'' 0 \<in> set (map snd (commissionableDeviceRecords scannerWithDevices))
   \<and> getProp (cprops (cachedDevice ''A1'' 0)) ''CM'' = Some (Num 0)
   \<and> getProp (cprops (cachedDevice ''A1'' 0)) ''instanceId'' = Some (Str ''A1'')
   \<and> getProp (cprops (cachedDevice ''A1'' 0)) ''D'' = Some (Num 3840)
   \<and> getCommissionableDeviceRecords hasColon scannerWithDevices anyCommissioningDevice
       = [toCommissionableDevice hasColon (cachedDevice ''B2'' 2)]
   \<and> toCommissionableDevice hasColon (cachedDevice ''A1'' 0)
       \<in> set (getCommissionableDeviceRecords hasColon scannerWithDevices
                (anyCommissioningDevice\<lparr>instanceId := Some ''A1''\<rparr>))
   \<and> toCommissionableDevice hasColon (cachedDevice ''A1'' 0)
       \<in> set (getCommissionableDeviceRecords hasColon scannerWithDevices
                (anyCommissioningDevice\<lparr>longDiscriminator := Some 3840\<rparr>))"
proof -
  have cached: "cachedDevice ''A1'' 0 \<in> set (map snd (commissionableDeviceRecords scannerWithDevices))"
    by (simp add: scannerWithDevices_def)
  have cm: "getProp (cprops (cachedDevice ''A1'' 0)) ''CM'' = Some (Num 0)"
    and iid: "getProp (cprops (cachedDevice ''A1'' 0)) ''instanceId'' = Some (Str ''A1'')"
    and d: "getProp (cprops (cachedDevice ''A1'' 0)) ''D'' = Some (Num 3840)"
    by (simp_all add: cachedDevice_def getProp_def)
  have only: "map (toCommissionableDevice hasColon)
         (filter (\<lambda>r. getProp (cprops r) ''CM'' = Some (Num 1) \<or> getProp (cprops r) ''CM'' = Some (Num 2))
            (map snd (commissionableDeviceRecords scannerWithDevices)))
       = [toCommissionableDevice hasColon (cachedDevice ''B2'' 2)]"
    by (simp add: scannerWithDevices_def cachedDevice_def getProp_def)
  note q = any_commissioning_device_query[of hasColon scannerWithDevices]
  from q only have any: "getCommissionableDeviceRecords hasColon scannerWithDevices anyCommissioningDevice
       = [toCommissionableDevice hasColon (cachedDevice ''B2'' 2)]"
    by simp
  from q cached cm iid have byId: "toCommissionableDevice hasColon (cachedDevice ''A1'' 0)
       \<in> set (getCommissionableDeviceRecords hasColon scannerWithDevices
                (anyCommissioningDevice\<lparr>instanceId := Some ''A1''\<rparr>))"
    by blast
  from q cached cm d have byD: "toCommissionableDevice hasColon (cachedDevice ''A1'' 0)
       \<in> set (getCommissionableDeviceRecords hasColon scannerWithDevices
                (anyCommissioningDevice\<lparr>longDiscriminator := Some 3840\<rparr>))"
    by blast
  from cached cm iid d any byId byD show ?thesis by blast
qed

end
